theory Spec2Isabelle
  imports Complex_Main "HOL-Library.Word"
begin

unbundle bit_operations_syntax

section \<open>The SDHCI host-controller driver (system/dev/block/sdhci/sdhci.c)\<close>

text \<open>
  A shallow embedding of the driver. C's fixed-width unsigned integers are words
  (\<open>uint32_t\<close> is \<open>32 word\<close>, arithmetic wraps); a division by zero, which C leaves
  undefined, is the result \<open>None\<close>.
\<close>

type_synonym u8 = "8 word"
type_synonym u16 = "16 word"
type_synonym u32 = "32 word"
type_synonym u64 = "64 word"

subsection \<open>Status codes and the constants of the missing headers\<close>

datatype zx_status =
    ZX_OK
  | ZX_ERR_INTERNAL
  | ZX_ERR_NOT_SUPPORTED
  | ZX_ERR_NO_MEMORY
  | ZX_ERR_INVALID_ARGS
  | ZX_ERR_TIMED_OUT
  | ZX_ERR_SHOULD_WAIT
  | ZX_ERR_IO

text \<open>
  The register bits, command flags, quirk bits and enumeration values come from headers
  (\<^verbatim>\<open>hw/sdmmc.h\<close>, \<^verbatim>\<open>ddk/protocol/sdhci.h\<close>, \<^verbatim>\<open>ddk/protocol/sdmmc.h\<close>,
  \<^verbatim>\<open>ddk/debug.h\<close>) that are not part of the sources at hand. Their values are a
  parameter of the model: a function from the macro's name to its value.
\<close>

datatype macro =
    SDHCI_IRQ_ERR
  | SDHCI_IRQ_ERR_CMD_TIMEOUT
  | SDHCI_IRQ_ERR_CMD_CRC
  | SDHCI_IRQ_ERR_CMD_END_BIT
  | SDHCI_IRQ_ERR_CMD_INDEX
  | SDHCI_IRQ_ERR_DAT_TIMEOUT
  | SDHCI_IRQ_ERR_DAT_CRC
  | SDHCI_IRQ_ERR_DAT_ENDBIT
  | SDHCI_IRQ_ERR_CURRENT_LIMIT
  | SDHCI_IRQ_ERR_AUTO_CMD
  | SDHCI_IRQ_ERR_ADMA
  | SDHCI_IRQ_ERR_TUNING
  | SDHCI_IRQ_CMD_CPLT
  | SDHCI_IRQ_XFER_CPLT
  | SDHCI_IRQ_BUFF_READ_READY
  | SDHCI_IRQ_BUFF_WRITE_READY
  | SDHCI_QUIRK_NO_DMA
  | SDHCI_QUIRK_STRIP_RESPONSE_CRC
  | SDMMC_RESP_LEN_136
  | SDMMC_RESP_LEN_48
  | SDMMC_RESP_LEN_48B
  | SDMMC_RESP_DATA_PRESENT
  | SDMMC_CMD_READ
  | SDMMC_CMD_TYPE_ABORT
  | SDMMC_CMD_MULTI_BLK
  | SDMMC_CMD_AUTO12
  | MMC_SEND_TUNING_BLOCK
  | SDHCI_XFERMODE_DMA_ENABLE
  | SDHCI_SOFTWARE_RESET_CMD
  | SDHCI_SOFTWARE_RESET_DAT
  | SDHCI_SD_CLOCK_ENABLE
  | SDHCI_STATE_CMD_INHIBIT
  | SDHCI_STATE_DAT_INHIBIT
  | SDHCI_HOSTCTRL_EXT_DATA_WIDTH
  | SDHCI_HOSTCTRL2_1P8V_SIGNALLING_ENA
  | SDHCI_HOSTCTRL2_EXEC_TUNING
  | SDHCI_HOSTCTRL2_CLOCK_SELECT
  | SDHCI_PWRCTRL_SD_BUS_POWER
  | SDHCI_PWRCTRL_SD_BUS_VOLTAGE_1P8V
  | SDHCI_PWRCTRL_SD_BUS_VOLTAGE_3P3V
  | SDMMC_VOLTAGE_180
  | SDMMC_VOLTAGE_MAX
  | DDK_LOG_TRACE

text \<open>The constants the driver defines itself.\<close>

definition MAX_TUNING_COUNT :: nat where
  "MAX_TUNING_COUNT = 40"

definition ADMA2_DESC_MAX_LENGTH :: u64 where
  "ADMA2_DESC_MAX_LENGTH = 0x10000"

definition DMA_DESC_COUNT :: nat where
  "DMA_DESC_COUNT = 8192"

definition SDHCI_CAP_ADMA2 :: u64 where
  "SDHCI_CAP_ADMA2 = push_bit 1 1"

definition SDHCI_CAP_64BIT :: u64 where
  "SDHCI_CAP_64BIT = push_bit 2 1"

definition ZX_MSEC :: "nat \<Rightarrow> nat" where
  "ZX_MSEC n = 1000000 * n"


subsection \<open>Clock divider\<close>

text \<open>
  \<^verbatim>\<open>get_clock_divider(base_clock, target_rate)\<close>: 0 when the target is not below
  the base clock; otherwise \<open>base / (2 * target)\<close>, incremented when
  \<open>result * target * 2 < base\<close>. All operations are on \<open>uint32_t\<close>.
\<close>

definition get_clock_divider :: "u32 \<Rightarrow> u32 \<Rightarrow> u32 option" where
  "get_clock_divider base_clock target_rate =
     (if target_rate \<ge> base_clock then Some 0
      else if 2 * target_rate = 0 then None
      else
        let result = base_clock div (2 * target_rate);
            result = (if result * target_rate * 2 < base_clock then result + 1 else result)
        in Some result)"

subsection \<open>Data\<close>

text \<open>
  An ADMA2 descriptor. The bit-fields of the attribute word are booleans; writing
  \<^verbatim>\<open>desc->attr = 0\<close> clears them all.
\<close>

record sdhci_adma64_desc =
  valid :: bool
  end_bit :: bool
  intr :: bool
  act1 :: bool
  act2 :: bool
  desc_length :: u16
  address :: u64

definition attr_zero :: "sdhci_adma64_desc \<Rightarrow> sdhci_adma64_desc" where
  "attr_zero d = d\<lparr>valid := False, end_bit := False, intr := False, act1 := False, act2 := False\<rparr>"

text \<open>The length a descriptor stands for: the source notes \<^verbatim>\<open>0 = 0x10000 bytes\<close>.\<close>

definition desc_bytes :: "sdhci_adma64_desc \<Rightarrow> nat" where
  "desc_bytes d = (if desc_length d = 0 then 65536 else unat (desc_length d))"

text \<open>
  The protocol data \<^verbatim>\<open>sdhci_perform_tuning\<close> fills in, and the I/O transaction. Of a
  transaction the model keeps the fields the driver touches, the result of
  \<^verbatim>\<open>iotxn_physmap\<close>, the physical segments its iterator yields (length and address),
  and the 32-bit words \<^verbatim>\<open>iotxn_copyto\<close> and \<^verbatim>\<open>iotxn_copyfrom\<close> move, by byte offset.
\<close>

record sdmmc_protocol_data =
  pd_cmd :: u32
  pd_arg :: u32
  pd_blockcount :: u16
  pd_blocksize :: u16

record iotxn =
  status :: zx_status
  actual :: u64
  length_txn :: u64
  offset :: u64
  pdata :: sdmmc_protocol_data
  physmap :: zx_status
  phys :: "(u64 \<times> u64) list"
  buffer :: "nat \<Rightarrow> u32"

text \<open>
  A request. Its declaration is in a missing header: block count and block size have
  the width \<^verbatim>\<open>sdhci_start_req_locked\<close> copies them to (\<^verbatim>\<open>uint16_t\<close>), and the
  block index, which is compared with the block count, has the same.
  \<open>txn = None\<close> is the null pointer.
\<close>

record sdmmc_request =
  cmd :: u32
  arg :: u32
  blockcount :: u16
  blocksize :: u16
  blockid :: u16
  response :: "u32 \<times> u32 \<times> u32 \<times> u32"
  txn :: "iotxn option"
  cookie :: nat

text \<open>
  The registers the modelled functions write or read back. The present-state register
  and the data port are the hardware's: see \<open>hw_state\<close>, \<open>rx_fifo\<close> and \<open>tx_fifo\<close>.
\<close>

record sdhci_regs =
  arg2 :: u32
  blkcntsiz :: u32
  arg1 :: u32
  cmd_reg :: u32
  resp0 :: u32
  resp1 :: u32
  resp2 :: u32
  resp3 :: u32
  ctrl0 :: u32
  ctrl1 :: u32
  irq :: u32
  irqmsk :: u32
  irqen :: u32
  ctrl2 :: u32
  admaaddr0 :: u32
  admaaddr1 :: u32

text \<open>
  The device. \<open>req = None\<close> is \<^verbatim>\<open>dev->req == NULL\<close>. Besides the fields of
  \<^verbatim>\<open>sdhci_device_t\<close> the state carries what the driver does to its surroundings:
  \<open>now\<close>, the monotonic clock in nanoseconds; \<open>completions\<close>, one entry for each call
  of \<^verbatim>\<open>sdhci_complete_request_locked\<close> (its status and byte count, and the request as
  the completion callback receives it); \<open>rx_fifo\<close>, the words the data port will
  deliver, and \<open>tx_fifo\<close>, the words written to it. The mutex is not modelled: each
  operation holds it from start to end.
\<close>

record sdhci_device =
  regs :: sdhci_regs
  iobuf_phys :: u64
  descs :: "sdhci_adma64_desc list"
  req :: "sdmmc_request option"
  caps :: u64
  quirks :: u64
  base_clock :: u32
  now :: nat
  completions :: "(zx_status \<times> u64 \<times> sdmmc_request) list"
  rx_fifo :: "u32 list"
  tx_fifo :: "u32 list"

text \<open>
  The surroundings: the header constants; the present-state register as a function of
  the time; what a poll of \<open>ctrl1\<close> reads at a time, given the value last held there
  (the hardware clears the reset bits by itself); the driver's log flags; the result
  of \<^verbatim>\<open>iotxn_alloc\<close>; and what \<^verbatim>\<open>iotxn_queue\<close> of a transaction does to the device.
\<close>

record env =
  hdr :: "macro \<Rightarrow> u32"
  hw_state :: "nat \<Rightarrow> u32"
  hw_ctrl1 :: "nat \<Rightarrow> u32 \<Rightarrow> u32"
  log_flags :: u32
  iotxn_alloc :: "zx_status \<times> iotxn"
  iotxn_queue :: "iotxn \<Rightarrow> sdhci_device \<Rightarrow> sdhci_device"

definition error_interrupts :: "env \<Rightarrow> u32" where
  "error_interrupts E =
     hdr E SDHCI_IRQ_ERR OR
     hdr E SDHCI_IRQ_ERR_CMD_TIMEOUT OR
     hdr E SDHCI_IRQ_ERR_CMD_CRC OR
     hdr E SDHCI_IRQ_ERR_CMD_END_BIT OR
     hdr E SDHCI_IRQ_ERR_CMD_INDEX OR
     hdr E SDHCI_IRQ_ERR_DAT_TIMEOUT OR
     hdr E SDHCI_IRQ_ERR_DAT_CRC OR
     hdr E SDHCI_IRQ_ERR_DAT_ENDBIT OR
     hdr E SDHCI_IRQ_ERR_CURRENT_LIMIT OR
     hdr E SDHCI_IRQ_ERR_AUTO_CMD OR
     hdr E SDHCI_IRQ_ERR_ADMA OR
     hdr E SDHCI_IRQ_ERR_TUNING"

definition normal_interrupts :: "env \<Rightarrow> u32" where
  "normal_interrupts E =
     hdr E SDHCI_IRQ_CMD_CPLT OR
     hdr E SDHCI_IRQ_XFER_CPLT OR
     hdr E SDHCI_IRQ_BUFF_READ_READY OR
     hdr E SDHCI_IRQ_BUFF_WRITE_READY"

definition sdhci_supports_adma2_64bit :: "env \<Rightarrow> sdhci_device \<Rightarrow> bool" where
  "sdhci_supports_adma2_64bit E dev \<longleftrightarrow>
     caps dev AND SDHCI_CAP_ADMA2 \<noteq> 0 \<and>
     caps dev AND SDHCI_CAP_64BIT \<noteq> 0 \<and>
     \<not> (quirks dev AND ucast (hdr E SDHCI_QUIRK_NO_DMA) \<noteq> 0)"

text \<open>\<^verbatim>\<open>zx_nanosleep(zx_deadline_after(d))\<close>: the clock moves on by \<open>d\<close>.\<close>

definition zx_nanosleep :: "nat \<Rightarrow> sdhci_device \<Rightarrow> sdhci_device" where
  "zx_nanosleep d dev = dev\<lparr>now := now dev + d\<rparr>"

subsection \<open>Completion and the interrupt handlers\<close>

text \<open>
  Three names in this part of the source have no declaration: \<^verbatim>\<open>dev->pending\<close> (in
  \<^verbatim>\<open>sdhci_transfer_complete_locked\<close> and \<^verbatim>\<open>sdhci_error_recovery_locked\<close>),
  \<^verbatim>\<open>txn\<close> in \<^verbatim>\<open>sdhci_data_stage_read_ready_locked\<close>, and \<^verbatim>\<open>pdata\<close> in
  \<^verbatim>\<open>sdhci_start_req_locked\<close>. The device has one reference to a request,
  \<^verbatim>\<open>dev->req\<close>, which every other guard tests; the model reads \<^verbatim>\<open>dev->pending\<close> as
  that reference and \<^verbatim>\<open>dev->pending->length\<close> as the length of its transaction,
  \<^verbatim>\<open>txn\<close> as \<^verbatim>\<open>req->txn\<close> (as the write handler declares it), and \<^verbatim>\<open>pdata->cmd\<close>
  as \<^verbatim>\<open>req->cmd\<close>. Calls of \<^verbatim>\<open>zxlogf\<close> are left out, but for the one in
  \<^verbatim>\<open>sdhci_start_req_locked\<close> that reads \<^verbatim>\<open>txn->length\<close>: no other one reads through
  a pointer that can be null.

  The handlers return \<open>None\<close> where the source dereferences a null pointer.
\<close>

text \<open>
  \<^verbatim>\<open>sdhci_wait_for_reset\<close>: polls \<open>ctrl1\<close> until the masked bits are clear or the
  deadline has passed. Each pass of the loop reads the clock once, which moves on by
  one tick.
\<close>

function sdhci_wait_for_reset_loop ::
  "env \<Rightarrow> u32 \<Rightarrow> nat \<Rightarrow> sdhci_device \<Rightarrow> zx_status \<times> sdhci_device" where
  "sdhci_wait_for_reset_loop E msk deadline dev =
     (let c = hw_ctrl1 E (now dev) (ctrl1 (regs dev));
          dev = dev\<lparr>regs := (regs dev)\<lparr>ctrl1 := c\<rparr>\<rparr>
      in if c AND msk = 0 then (ZX_OK, dev)
         else if now dev > deadline then (ZX_ERR_TIMED_OUT, dev)
         else sdhci_wait_for_reset_loop E msk deadline (dev\<lparr>now := Suc (now dev)\<rparr>))"
  by pat_completeness auto
termination
  by (relation "measure (\<lambda>(E, msk, deadline, dev). Suc deadline - now dev)") auto

declare sdhci_wait_for_reset_loop.simps [simp del]

definition sdhci_wait_for_reset ::
  "env \<Rightarrow> u32 \<Rightarrow> nat \<Rightarrow> sdhci_device \<Rightarrow> zx_status \<times> sdhci_device" where
  "sdhci_wait_for_reset E msk timeout dev =
     sdhci_wait_for_reset_loop E msk (now dev + timeout) dev"


text \<open>The block "Read the response data" of \<^verbatim>\<open>sdhci_cmd_stage_complete_locked\<close>.\<close>

definition read_response :: "env \<Rightarrow> u64 \<Rightarrow> sdhci_regs \<Rightarrow> sdmmc_request \<Rightarrow> sdmmc_request" where
  "read_response E q rg r =
     (if cmd r AND hdr E SDMMC_RESP_LEN_136 \<noteq> 0 then
        (if q AND ucast (hdr E SDHCI_QUIRK_STRIP_RESPONSE_CRC) \<noteq> 0 then
           r\<lparr>response :=
               (push_bit 8 (resp3 rg) OR (drop_bit 24 (resp2 rg) AND 0xFF),
                push_bit 8 (resp2 rg) OR (drop_bit 24 (resp1 rg) AND 0xFF),
                push_bit 8 (resp1 rg) OR (drop_bit 24 (resp0 rg) AND 0xFF),
                push_bit 8 (resp0 rg))\<rparr>
         else
           r\<lparr>response := (resp0 rg, resp1 rg, resp2 rg, resp3 rg)\<rparr>)
      else if cmd r AND (hdr E SDMMC_RESP_LEN_48 OR hdr E SDMMC_RESP_LEN_48B) \<noteq> 0 then
        (case response r of (w0, w1, w2, w3) \<Rightarrow> r\<lparr>response := (resp0 rg, resp1 rg, w2, w3)\<rparr>)
      else r)"

text \<open>
  The four response words as one 128-bit value, word 0 least significant, and back.
\<close>

definition response_value :: "u32 \<times> u32 \<times> u32 \<times> u32 \<Rightarrow> 128 word" where
  "response_value w =
     (case w of (w0, w1, w2, w3) \<Rightarrow>
        push_bit 96 (ucast w3) OR push_bit 64 (ucast w2) OR push_bit 32 (ucast w1) OR ucast w0)"

definition response_words :: "128 word \<Rightarrow> u32 \<times> u32 \<times> u32 \<times> u32" where
  "response_words v =
     (ucast v, ucast (drop_bit 32 v), ucast (drop_bit 64 v), ucast (drop_bit 96 v))"














subsection \<open>Request submission\<close>

text \<open>
  Modelled from the spec: the physical-segment iterator of the DMA-capable buffer
  abstraction (\<^verbatim>\<open>iotxn_phys_iter_init\<close>, \<^verbatim>\<open>iotxn_phys_iter_next\<close>) and
  \<^verbatim>\<open>iotxn_phys\<close>, which are not part of the sources. The iterator walks the
  transaction's contiguous physical segments; \<^verbatim>\<open>iotxn_phys_iter_next\<close> yields the
  length and the address of the next one, and length 0 when none is left. What the
  iterator does with the chunk size it is given is left open: the segments of the
  model are the ones it yields.
\<close>

definition iotxn_phys_iter_init :: "iotxn \<Rightarrow> u64 \<Rightarrow> (u64 \<times> u64) list" where
  "iotxn_phys_iter_init t max_length = phys t"

definition iotxn_phys_iter_next :: "(u64 \<times> u64) list \<Rightarrow> u64 \<times> u64 \<times> (u64 \<times> u64) list" where
  "iotxn_phys_iter_next iter =
     (case iter of [] \<Rightarrow> (0, 0, []) | (len, paddr) # rest \<Rightarrow> (len, paddr, rest))"

definition iotxn_phys :: "iotxn \<Rightarrow> u64" where
  "iotxn_phys t = (case phys t of [] \<Rightarrow> 0 | (len, paddr) # rest \<Rightarrow> paddr)"

text \<open>
  The descriptor loop of \<^verbatim>\<open>sdhci_start_req_locked\<close>. \<open>desc\<close> is the index of
  \<^verbatim>\<open>desc\<close> in the table \<^verbatim>\<open>dev->descs\<close>, which has \<open>DMA_DESC_COUNT\<close> entries. The
  table is returned with the status, since the entries written before an error stay
  written.
\<close>

function adma_loop ::
  "(u64 \<times> u64) list \<Rightarrow> nat \<Rightarrow> nat \<Rightarrow> sdhci_adma64_desc list
     \<Rightarrow> zx_status \<times> sdhci_adma64_desc list" where
  "adma_loop iter count desc ds =
     (case iotxn_phys_iter_next iter of
        (len, paddr, iter') \<Rightarrow>
          if len = 0 then
            (if desc \<noteq> 0 then
               (ZX_OK, ds[desc - 1 := (ds ! (desc - 1))\<lparr>end_bit := True\<rparr>])
             else (ZX_ERR_NOT_SUPPORTED, ds))
          else if len > ADMA2_DESC_MAX_LENGTH then (ZX_ERR_NOT_SUPPORTED, ds)
          else if count + 1 > DMA_DESC_COUNT then (ZX_ERR_NOT_SUPPORTED, ds)
          else
            adma_loop iter' (count + 1) (desc + 1)
              (ds[desc := (attr_zero ((ds ! desc)
                             \<lparr>desc_length := ucast (len AND 0xffff), address := paddr\<rparr>))
                           \<lparr>valid := True, act2 := True\<rparr>]))"
  by pat_completeness auto
termination
  by (relation "measure (\<lambda>(iter, count, desc, ds). length iter)")
     (auto simp: iotxn_phys_iter_next_def split: list.splits)

declare adma_loop.simps [simp del]

text \<open>What the loop writes for a segment: every field of the entry is assigned.\<close>

definition adma_desc :: "u64 \<times> u64 \<Rightarrow> sdhci_adma64_desc" where
  "adma_desc s =
     \<lparr>valid = True, end_bit = False, intr = False, act1 = False, act2 = True,
      desc_length = ucast (fst s AND 0xffff), address = snd s\<rparr>"

text \<open>
  The wait for the inhibit bits: a loop with no bound. \<open>None\<close> is the loop that
  never ends.
\<close>

partial_function (option) wait_inhibit :: "env \<Rightarrow> u32 \<Rightarrow> sdhci_device \<Rightarrow> sdhci_device option" where
  "wait_inhibit E inhibit_mask dev =
     (if hw_state E (now dev) AND inhibit_mask \<noteq> 0
      then wait_inhibit E inhibit_mask (zx_nanosleep (ZX_MSEC 1) dev)
      else Some dev)"

declare wait_inhibit.simps [code]

text \<open>The inhibit bits a command waits for.\<close>

definition start_req_inhibit_mask :: "env \<Rightarrow> u32 \<Rightarrow> u32" where
  "start_req_inhibit_mask E c =
     (let inhibit_mask = hdr E SDHCI_STATE_CMD_INHIBIT
      in if c AND hdr E SDMMC_RESP_LEN_48B = hdr E SDMMC_RESP_LEN_48B \<and>
            c AND hdr E SDMMC_CMD_TYPE_ABORT = 0
         then inhibit_mask OR hdr E SDHCI_STATE_DAT_INHIBIT
         else inhibit_mask)"

text \<open>The end of \<^verbatim>\<open>sdhci_start_req_locked\<close>, from the write of \<^verbatim>\<open>blkcntsiz\<close> on.\<close>

definition start_req_issue :: "env \<Rightarrow> sdmmc_request \<Rightarrow> u32 \<Rightarrow> sdhci_device \<Rightarrow> sdhci_device" where
  "start_req_issue E r c dev =
     (let blkcnt = blockcount r;
          blksiz = blocksize r;
          rg = regs dev;
          rg = rg\<lparr>blkcntsiz := ucast blksiz OR push_bit 16 (ucast blkcnt)\<rparr>;
          rg = rg\<lparr>arg1 := arg r\<rparr>;
          rg = rg\<lparr>irqmsk := error_interrupts E OR normal_interrupts E\<rparr>;
          rg = rg\<lparr>irqen := error_interrupts E OR
                   (if cmd r = hdr E MMC_SEND_TUNING_BLOCK
                    then hdr E SDHCI_IRQ_BUFF_READ_READY else hdr E SDHCI_IRQ_CMD_CPLT)\<rparr>;
          rg = rg\<lparr>irq := irqen rg\<rparr>;
          rg = rg\<lparr>cmd_reg := c\<rparr>
      in dev\<lparr>regs := rg\<rparr>)"

text \<open>
  \<^verbatim>\<open>sdhci_start_req_locked\<close>. The result \<open>None\<close> is a call that does not return to
  its caller: either the wait for the inhibit bits never ends, or, before the wait, the
  trace log line reads \<^verbatim>\<open>txn->length\<close> of a null transaction, which happens when
  trace logging is on and a command without data phase has no transaction.
\<close>

definition sdhci_start_req_locked ::
  "env \<Rightarrow> sdhci_device \<Rightarrow> sdmmc_request \<Rightarrow> (zx_status \<times> sdhci_device) option" where
  "sdhci_start_req_locked E dev r =
     (let dev = dev\<lparr>req := Some r\<rparr>;
          c = cmd r;
          has_data = (c AND hdr E SDMMC_RESP_DATA_PRESENT \<noteq> 0)
      in if has_data \<and> txn r = None then Some (ZX_ERR_INVALID_ARGS, dev)
         else if log_flags E AND hdr E DDK_LOG_TRACE \<noteq> 0 \<and> txn r = None then None
         else
           case wait_inhibit E (start_req_inhibit_mask E c) dev of
                None \<Rightarrow> None
              | Some dev \<Rightarrow>
                  let use_dma = sdhci_supports_adma2_64bit E dev
                  in if has_data then
                       (case txn r of
                          None \<Rightarrow> None
                        | Some t \<Rightarrow>
                            if physmap t \<noteq> ZX_OK then Some (physmap t, dev)
                            else if use_dma then
                              (case adma_loop (iotxn_phys_iter_init t ADMA2_DESC_MAX_LENGTH)
                                      0 0 (descs dev) of
                                 (st, ds) \<Rightarrow>
                                   let dev = dev\<lparr>descs := ds\<rparr>
                                   in if st \<noteq> ZX_OK then Some (st, dev)
                                      else
                                        let desc_phys = iobuf_phys dev;
                                            dev = dev\<lparr>regs := (regs dev)
                                                    \<lparr>admaaddr0 := ucast (desc_phys AND 0xffffffff),
                                                     admaaddr1 :=
                                                       ucast (drop_bit 32 desc_phys AND 0xffffffff)\<rparr>\<rparr>;
                                            c = c OR hdr E SDHCI_XFERMODE_DMA_ENABLE;
                                            c = (if c AND hdr E SDMMC_CMD_MULTI_BLK \<noteq> 0
                                                 then c OR hdr E SDMMC_CMD_AUTO12 else c)
                                        in Some (ZX_OK, start_req_issue E r c dev))
                            else
                              let dev = dev\<lparr>regs := (regs dev)\<lparr>arg2 := ucast (iotxn_phys t)\<rparr>\<rparr>;
                                  c = (if c AND hdr E SDMMC_CMD_MULTI_BLK \<noteq> 0
                                       then c OR hdr E SDMMC_CMD_AUTO12 else c)
                              in Some (ZX_OK, start_req_issue E r c dev))
                     else
                       let c = (if c = hdr E MMC_SEND_TUNING_BLOCK
                                then c OR hdr E SDMMC_RESP_DATA_PRESENT OR hdr E SDMMC_CMD_READ
                                else c)
                       in Some (ZX_OK, start_req_issue E r c dev))"

definition sdhci_request ::
  "env \<Rightarrow> sdhci_device \<Rightarrow> sdmmc_request \<Rightarrow> (zx_status \<times> sdhci_device) option" where
  "sdhci_request E dev r =
     (if req dev \<noteq> None then Some (ZX_ERR_SHOULD_WAIT, dev)
      else sdhci_start_req_locked E dev r)"

subsection \<open>Bus configuration\<close>

definition sdhci_set_signal_voltage ::
  "env \<Rightarrow> u32 \<Rightarrow> sdhci_device \<Rightarrow> zx_status \<times> sdhci_device" where
  "sdhci_set_signal_voltage E voltage dev =
     (if voltage \<ge> hdr E SDMMC_VOLTAGE_MAX then (ZX_ERR_INVALID_ARGS, dev)
      else
        let ena = hdr E SDHCI_HOSTCTRL2_1P8V_SIGNALLING_ENA;
            trace = (log_flags E AND hdr E DDK_LOG_TRACE \<noteq> 0);
            dev = dev\<lparr>regs := (regs dev)
                    \<lparr>ctrl1 := ctrl1 (regs dev) AND NOT (hdr E SDHCI_SD_CLOCK_ENABLE)\<rparr>\<rparr>;
            dev = zx_nanosleep (ZX_MSEC 2) dev;
            dev = (if voltage = hdr E SDMMC_VOLTAGE_180
                   then dev\<lparr>regs := (regs dev)\<lparr>ctrl2 := ctrl2 (regs dev) OR ena\<rparr>\<rparr>
                   else dev\<lparr>regs := (regs dev)\<lparr>ctrl2 := ctrl2 (regs dev) AND NOT ena\<rparr>\<rparr>);
            dev = zx_nanosleep (ZX_MSEC 5) dev
        in if voltage = hdr E SDMMC_VOLTAGE_180 \<and> trace \<and> ctrl2 (regs dev) AND ena = 0
           then (ZX_ERR_INTERNAL, dev)
           else if voltage \<noteq> hdr E SDMMC_VOLTAGE_180 \<and> trace \<and> ctrl2 (regs dev) AND ena \<noteq> 0
           then (ZX_ERR_INTERNAL, dev)
           else
             let expected_mask = hdr E SDHCI_PWRCTRL_SD_BUS_POWER;
                 expected_mask =
                   (if voltage = hdr E SDMMC_VOLTAGE_180
                    then expected_mask OR hdr E SDHCI_PWRCTRL_SD_BUS_VOLTAGE_1P8V
                    else expected_mask OR hdr E SDHCI_PWRCTRL_SD_BUS_VOLTAGE_3P3V)
             in if ctrl0 (regs dev) AND expected_mask \<noteq> expected_mask
                then (ZX_ERR_INTERNAL, dev)
                else
                  let dev = dev\<lparr>regs := (regs dev)
                              \<lparr>ctrl1 := ctrl1 (regs dev) OR hdr E SDHCI_SD_CLOCK_ENABLE\<rparr>\<rparr>;
                      dev = zx_nanosleep (ZX_MSEC 2) dev
                  in (ZX_OK, dev))"

text \<open>
  The wait of \<^verbatim>\<open>sdhci_set_bus_freq\<close> for the inhibit bits, with its count of
  iterations.
\<close>

function bus_freq_wait :: "env \<Rightarrow> nat \<Rightarrow> sdhci_device \<Rightarrow> zx_status \<times> sdhci_device" where
  "bus_freq_wait E iterations dev =
     (if hw_state E (now dev) AND
           (hdr E SDHCI_STATE_CMD_INHIBIT OR hdr E SDHCI_STATE_DAT_INHIBIT) \<noteq> 0
      then
        (if iterations + 1 > 1000 then (ZX_ERR_TIMED_OUT, dev)
         else bus_freq_wait E (iterations + 1) (zx_nanosleep (ZX_MSEC 1) dev))
      else (ZX_OK, dev))"
  by pat_completeness auto
termination
  by (relation "measure (\<lambda>(E, iterations, dev). 1001 - iterations)") auto

declare bus_freq_wait.simps [simp del]

text \<open>
  \<open>None\<close> is the division by zero in \<open>get_clock_divider\<close>, which is called before
  anything else.
\<close>

definition sdhci_set_bus_freq ::
  "env \<Rightarrow> u32 \<Rightarrow> sdhci_device \<Rightarrow> (zx_status \<times> sdhci_device) option" where
  "sdhci_set_bus_freq E bus_freq dev =
     (case get_clock_divider (base_clock dev) bus_freq of
        None \<Rightarrow> None
      | Some divider \<Rightarrow>
          let divider_lo = (ucast (divider AND 0xff) :: u8);
              divider_hi = (ucast (drop_bit 8 divider AND 0x3) :: u8)
          in case bus_freq_wait E 0 dev of
               (st, dev) \<Rightarrow>
                 if st \<noteq> ZX_OK then Some (st, dev)
                 else
                   let dev = dev\<lparr>regs := (regs dev)
                               \<lparr>ctrl1 := ctrl1 (regs dev) AND NOT (hdr E SDHCI_SD_CLOCK_ENABLE)\<rparr>\<rparr>;
                       dev = zx_nanosleep (ZX_MSEC 2) dev;
                       c1 = ctrl1 (regs dev);
                       c1 = c1 AND NOT 0xffe0;
                       c1 = c1 OR (push_bit 8 (ucast divider_lo) OR push_bit 6 (ucast divider_hi));
                       dev = dev\<lparr>regs := (regs dev)\<lparr>ctrl1 := c1\<rparr>\<rparr>;
                       dev = zx_nanosleep (ZX_MSEC 2) dev;
                       dev = dev\<lparr>regs := (regs dev)
                               \<lparr>ctrl1 := ctrl1 (regs dev) OR hdr E SDHCI_SD_CLOCK_ENABLE\<rparr>\<rparr>;
                       dev = zx_nanosleep (ZX_MSEC 2) dev
                   in Some (ZX_OK, dev))"

subsection \<open>Tuning\<close>

text \<open>
  The \<^verbatim>\<open>do ... while\<close> loop of \<^verbatim>\<open>sdhci_perform_tuning\<close>: the transaction is queued,
  then the execute-tuning bit is tested, and \<open>count\<close> is compared with
  \<open>MAX_TUNING_COUNT\<close> and incremented only when the bit is still set.
\<close>

function tuning_loop :: "env \<Rightarrow> iotxn \<Rightarrow> nat \<Rightarrow> sdhci_device \<Rightarrow> sdhci_device" where
  "tuning_loop E tune_txn count dev =
     (let dev = iotxn_queue E tune_txn dev
      in if ctrl2 (regs dev) AND hdr E SDHCI_HOSTCTRL2_EXEC_TUNING \<noteq> 0 \<and>
            count < MAX_TUNING_COUNT
         then tuning_loop E tune_txn (count + 1) dev
         else dev)"
  by pat_completeness auto
termination
  by (relation "measure (\<lambda>(E, tune_txn, count, dev). MAX_TUNING_COUNT - count)") auto

declare tuning_loop.simps [simp del]

definition tuning_txn :: "env \<Rightarrow> sdhci_device \<Rightarrow> iotxn" where
  "tuning_txn E dev =
     (let tune_txn = snd (iotxn_alloc E);
          tune_txn = tune_txn\<lparr>offset := 0\<rparr>;
          tune_txn = tune_txn\<lparr>length_txn := 0\<rparr>;
          pd = pdata tune_txn;
          pd = pd\<lparr>pd_cmd := hdr E MMC_SEND_TUNING_BLOCK\<rparr>;
          pd = pd\<lparr>pd_arg := 0\<rparr>;
          pd = pd\<lparr>pd_blockcount := 0\<rparr>;
          pd = pd\<lparr>pd_blocksize :=
                 (if ctrl0 (regs dev) AND hdr E SDHCI_HOSTCTRL_EXT_DATA_WIDTH \<noteq> 0
                  then 128 else 64)\<rparr>
      in tune_txn\<lparr>pdata := pd\<rparr>)"

definition sdhci_perform_tuning :: "env \<Rightarrow> sdhci_device \<Rightarrow> zx_status \<times> sdhci_device" where
  "sdhci_perform_tuning E dev =
     (if fst (iotxn_alloc E) \<noteq> ZX_OK then (fst (iotxn_alloc E), dev)
      else
        let tune_txn = tuning_txn E dev;
            dev = dev\<lparr>regs := (regs dev)
                    \<lparr>ctrl2 := ctrl2 (regs dev) OR hdr E SDHCI_HOSTCTRL2_EXEC_TUNING\<rparr>\<rparr>;
            dev = tuning_loop E tune_txn 0 dev
        in if ctrl2 (regs dev) AND hdr E SDHCI_HOSTCTRL2_EXEC_TUNING \<noteq> 0 \<or>
              \<not> (ctrl2 (regs dev) AND hdr E SDHCI_HOSTCTRL2_CLOCK_SELECT \<noteq> 0)
           then (ZX_ERR_IO, dev)
           else (ZX_OK, dev))"

subsection \<open>What a handler may change\<close>

text \<open>
  The relation between the device before and after one handler, as far as the request
  in flight and the completions go. With no request in flight nothing is completed.
  With one, it either stays in flight, with the same command and block count, and its
  block index as it was or one more and different from the block count; or it is
  completed, once, with its block index as it was or one more and then equal to
  the block count. \<open>x\<close> says whether a success with the block index off the block
  count may come from elsewhere than a command without data phase.
\<close>

definition automaton_step :: "env \<Rightarrow> bool \<Rightarrow> sdhci_device \<Rightarrow> sdhci_device \<Rightarrow> bool" where
  "automaton_step E x dev dev' \<longleftrightarrow>
     (case req dev of
        None \<Rightarrow> req dev' = None \<and> completions dev' = completions dev
      | Some r \<Rightarrow>
          (case req dev' of
             Some r' \<Rightarrow>
               completions dev' = completions dev \<and>
               cmd r' = cmd r \<and> blockcount r' = blockcount r \<and>
               (txn r' = None \<longleftrightarrow> txn r = None) \<and>
               (blockid r' = blockid r \<or>
                blockid r' = blockid r + 1 \<and> blockid r' \<noteq> blockcount r)
           | None \<Rightarrow>
               (\<exists>st a r'.
                  completions dev' = completions dev @ [(st, a, r')] \<and>
                  cmd r' = cmd r \<and> blockcount r' = blockcount r \<and>
                  (blockid r' = blockid r \<or>
                   blockid r' = blockid r + 1 \<and> blockid r' = blockcount r) \<and>
                  (st = ZX_OK \<and> blockid r' \<noteq> blockcount r \<longrightarrow>
                     x \<or> cmd r AND hdr E SDMMC_RESP_DATA_PRESENT = 0))))"




subsection \<open>A concrete controller\<close>

text \<open>
  Values for the header constants, after the register layout of the SD Host Controller
  specification, and a device, a transaction and requests on which the functions above
  can be run. The hardware of \<open>example_env\<close> never raises an inhibit bit, clears the
  reset bits at once, and finishes tuning in the first round.
\<close>

fun example_hdr :: "macro \<Rightarrow> u32" where
  "example_hdr SDHCI_IRQ_ERR = 0x8000"
| "example_hdr SDHCI_IRQ_ERR_CMD_TIMEOUT = 0x10000"
| "example_hdr SDHCI_IRQ_ERR_CMD_CRC = 0x20000"
| "example_hdr SDHCI_IRQ_ERR_CMD_END_BIT = 0x40000"
| "example_hdr SDHCI_IRQ_ERR_CMD_INDEX = 0x80000"
| "example_hdr SDHCI_IRQ_ERR_DAT_TIMEOUT = 0x100000"
| "example_hdr SDHCI_IRQ_ERR_DAT_CRC = 0x200000"
| "example_hdr SDHCI_IRQ_ERR_DAT_ENDBIT = 0x400000"
| "example_hdr SDHCI_IRQ_ERR_CURRENT_LIMIT = 0x800000"
| "example_hdr SDHCI_IRQ_ERR_AUTO_CMD = 0x1000000"
| "example_hdr SDHCI_IRQ_ERR_ADMA = 0x2000000"
| "example_hdr SDHCI_IRQ_ERR_TUNING = 0x4000000"
| "example_hdr SDHCI_IRQ_CMD_CPLT = 0x1"
| "example_hdr SDHCI_IRQ_XFER_CPLT = 0x2"
| "example_hdr SDHCI_IRQ_BUFF_WRITE_READY = 0x10"
| "example_hdr SDHCI_IRQ_BUFF_READ_READY = 0x20"
| "example_hdr SDHCI_QUIRK_STRIP_RESPONSE_CRC = 0x1"
| "example_hdr SDHCI_QUIRK_NO_DMA = 0x2"
| "example_hdr SDMMC_RESP_LEN_136 = 0x10000"
| "example_hdr SDMMC_RESP_LEN_48 = 0x20000"
| "example_hdr SDMMC_RESP_LEN_48B = 0x30000"
| "example_hdr SDMMC_RESP_DATA_PRESENT = 0x200000"
| "example_hdr SDMMC_CMD_TYPE_ABORT = 0xC00000"
| "example_hdr SDMMC_CMD_READ = 0x10"
| "example_hdr SDMMC_CMD_MULTI_BLK = 0x20"
| "example_hdr SDMMC_CMD_AUTO12 = 0x4"
| "example_hdr SDHCI_XFERMODE_DMA_ENABLE = 0x1"
| "example_hdr MMC_SEND_TUNING_BLOCK = 0x151A0000"
| "example_hdr SDHCI_SOFTWARE_RESET_CMD = 0x2000000"
| "example_hdr SDHCI_SOFTWARE_RESET_DAT = 0x4000000"
| "example_hdr SDHCI_SD_CLOCK_ENABLE = 0x4"
| "example_hdr SDHCI_STATE_CMD_INHIBIT = 0x1"
| "example_hdr SDHCI_STATE_DAT_INHIBIT = 0x2"
| "example_hdr SDHCI_HOSTCTRL_EXT_DATA_WIDTH = 0x20"
| "example_hdr SDHCI_HOSTCTRL2_1P8V_SIGNALLING_ENA = 0x80000"
| "example_hdr SDHCI_HOSTCTRL2_EXEC_TUNING = 0x400000"
| "example_hdr SDHCI_HOSTCTRL2_CLOCK_SELECT = 0x800000"
| "example_hdr SDHCI_PWRCTRL_SD_BUS_POWER = 0x100"
| "example_hdr SDHCI_PWRCTRL_SD_BUS_VOLTAGE_1P8V = 0xA00"
| "example_hdr SDHCI_PWRCTRL_SD_BUS_VOLTAGE_3P3V = 0xE00"
| "example_hdr SDMMC_VOLTAGE_180 = 1"
| "example_hdr SDMMC_VOLTAGE_MAX = 2"
| "example_hdr DDK_LOG_TRACE = 0x4"

definition example_txn :: iotxn where
  "example_txn =
     \<lparr>status = ZX_OK, actual = 0, length_txn = 512, offset = 0,
      pdata = \<lparr>pd_cmd = 0, pd_arg = 0, pd_blockcount = 0, pd_blocksize = 0\<rparr>,
      physmap = ZX_OK, phys = [(512, 0x80000000)], buffer = (\<lambda>off. 0)\<rparr>"

definition example_regs :: sdhci_regs where
  "example_regs =
     \<lparr>arg2 = 0, blkcntsiz = 0, arg1 = 0, cmd_reg = 0,
      resp0 = 0x11223344, resp1 = 0x55667788, resp2 = 0x99AABBCC, resp3 = 0xDDEEFF00,
      ctrl0 = 0xF00, ctrl1 = 0x4, irq = 0, irqmsk = 0, irqen = 0, ctrl2 = 0,
      admaaddr0 = 0, admaaddr1 = 0\<rparr>"

definition example_dev :: sdhci_device where
  "example_dev =
     \<lparr>regs = example_regs, iobuf_phys = 0x40000000,
      descs = replicate DMA_DESC_COUNT (adma_desc (0, 0)),
      req = None, caps = 0x6, quirks = 0, base_clock = 50000000,
      now = 0, completions = [], rx_fifo = [], tx_fifo = []\<rparr>"

definition example_env :: env where
  "example_env =
     \<lparr>hdr = example_hdr, hw_state = (\<lambda>t. 0),
      hw_ctrl1 = (\<lambda>t v. v AND NOT 0x6000000), log_flags = 0,
      iotxn_alloc = (ZX_OK, example_txn),
      iotxn_queue = (\<lambda>t dev. dev\<lparr>regs := (regs dev)
                       \<lparr>ctrl2 := (ctrl2 (regs dev) AND NOT 0x400000) OR 0x800000\<rparr>\<rparr>)\<rparr>"

text \<open>The same surroundings with both inhibit bits stuck.\<close>

definition example_stuck_env :: env where
  "example_stuck_env = example_env\<lparr>hw_state := (\<lambda>t. 0x3)\<rparr>"

text \<open>
  A single-block read with data (command 17), the same without a transaction, a
  command with a 136-bit response (command 2), and a command with a 48-bit response and
  no data phase (command 13).
\<close>

definition example_read :: sdmmc_request where
  "example_read =
     \<lparr>cmd = 0x113A0010, arg = 0, blockcount = 1, blocksize = 512, blockid = 0,
      response = (0, 0, 0, 0), txn = Some example_txn, cookie = 0\<rparr>"

definition example_read_no_txn :: sdmmc_request where
  "example_read_no_txn = example_read\<lparr>txn := None\<rparr>"



definition example_cid :: sdmmc_request where
  "example_cid =
     \<lparr>cmd = 0x02090000, arg = 0, blockcount = 0, blocksize = 0, blockid = 0,
      response = (0, 0, 0, 0), txn = None, cookie = 0\<rparr>"

definition example_status :: sdmmc_request where
  "example_status =
     \<lparr>cmd = 0x0D1A0000, arg = 0, blockcount = 0, blocksize = 0, blockid = 0,
      response = (0, 0, 0, 0), txn = None, cookie = 0\<rparr>"

section \<open>Properties\<close>

subsection \<open>Clock divider\<close>

lemma divider_nat_bounds:
  fixes b t :: nat
  assumes "0 < t" "t < b"
  defines "r \<equiv> b div (2 * t)"
  defines "d \<equiv> (if r * t * 2 < b then r + 1 else r)"
  shows "b \<le> d * t * 2" and "(d - 1) * t * 2 < b" and "0 < d"
proof -
  have eq: "b = r * (2 * t) + b mod (2 * t)"
    unfolding r_def by (rule div_mult_mod_eq [symmetric])
  have lt: "b mod (2 * t) < 2 * t"
    using assms(1) by simp
  show "b \<le> d * t * 2"
  proof (cases "r * t * 2 < b")
    case True
    have "b < r * (2 * t) + 2 * t" using eq lt by linarith
    then show ?thesis using True by (simp add: d_def algebra_simps)
  next
    case False
    then show ?thesis by (simp add: d_def)
  qed
  show pos: "0 < d"
  proof (cases "r * t * 2 < b")
    case True
    then show ?thesis by (simp add: d_def)
  next
    case False
    then have "r \<noteq> 0" using assms(2) by (cases "r = 0") auto
    then show ?thesis using False by (simp add: d_def)
  qed
  show "(d - 1) * t * 2 < b"
  proof (cases "r * t * 2 < b")
    case True
    then show ?thesis by (simp add: d_def)
  next
    case False
    then have d: "d = r" by (simp add: d_def)
    have "r * (2 * t) \<le> b" using eq by linarith
    moreover have "(r - 1) * (2 * t) < r * (2 * t)"
      using pos d assms(1) by (simp add: diff_mult_distrib)
    ultimately show ?thesis using d by (simp add: algebra_simps)
  qed
qed

lemma divider_least:
  fixes b t d :: nat
  assumes "b \<le> d * t * 2" "(d - 1) * t * 2 < b" "0 < d" 
  shows "b \<le> d' * t * 2 \<longleftrightarrow> d \<le> d'"
proof
  assume h: "b \<le> d' * t * 2"
  show "d \<le> d'"
  proof (rule ccontr)
    assume "\<not> d \<le> d'"
    then have "d' \<le> d - 1" by simp
    then have "d' * t * 2 \<le> (d - 1) * t * 2" by simp
    with h assms(2) show False by linarith
  qed
next
  assume "d \<le> d'"
  then have "d * t * 2 \<le> d' * t * 2" by simp
  with assms(1) show "b \<le> d' * t * 2" by linarith
qed

lemma divider_ceiling:
  fixes b t d :: nat
  assumes "0 < t" "b \<le> d * t * 2" "(d - 1) * t * 2 < b" "0 < d"
  shows "\<lceil>real b / (2 * real t)\<rceil> = int d"
proof (rule ceiling_unique)
  have tp: "0 < 2 * real t" using assms(1) by simp
  have "real b \<le> real (d * t * 2)" using assms(2) by (simp only: of_nat_le_iff)
  then show "real b / (2 * real t) \<le> of_int (int d)"
    using tp by (simp add: pos_divide_le_eq algebra_simps)
  have "real ((d - 1) * t * 2) < real b" using assms(3) by (simp only: of_nat_less_iff)
  moreover have "real (d - 1) = real d - 1" using assms(4) by (simp add: of_nat_diff)
  ultimately have "(real d - 1) * (2 * real t) < real b" by (simp add: algebra_simps)
  then have "real d - 1 < real b / (2 * real t)"
    using tp by (simp only: pos_less_divide_eq)
  then show "of_int (int d) - 1 < real b / (2 * real t)" by simp
qed

lemma divider_real_le:
  fixes b t d' :: nat
  assumes "0 < d'"
  shows "real b / (2 * real d') \<le> real t \<longleftrightarrow> b \<le> d' * t * 2"
proof -
  have "real b / (2 * real d') \<le> real t \<longleftrightarrow> real b \<le> real t * (2 * real d')"
    using assms by (simp add: pos_divide_le_eq)
  also have "\<dots> \<longleftrightarrow> real b \<le> real (d' * t * 2)" by (simp add: algebra_simps)
  also have "\<dots> \<longleftrightarrow> b \<le> d' * t * 2" by (simp only: of_nat_le_iff)
  finally show ?thesis .
qed

lemma get_clock_divider_unat:
  fixes b t :: u32
  assumes t0: "0 < unat t" and t31: "unat t < 2 ^ 31" and lt: "t < b"
  shows "\<exists>d. get_clock_divider b t = Some d \<and>
           unat d = (let r = unat b div (2 * unat t)
                     in if r * unat t * 2 < unat b then r + 1 else r)"
proof -
  let ?r = "b div (2 * t)"
  have u2t: "unat (2 * t) = 2 * unat t"
    using t31 by (simp add: unat_word_ariths)
  then have nz: "2 * t \<noteq> 0" using t0 by (metis mult_is_0 unat_0 zero_neq_numeral less_numeral_extra(3))
  have ur: "unat ?r = unat b div (2 * unat t)"
    by (simp add: unat_div u2t)
  have le: "unat ?r * unat t * 2 \<le> unat b"
  proof -
    have "unat b div (2 * unat t) * (2 * unat t) \<le> unat b" by (rule div_times_less_eq_dividend)
    then show ?thesis unfolding ur by (simp add: algebra_simps)
  qed
  have bb: "unat b < 2 ^ 32" using unsigned_less [of b, where ?'a = nat] by simp
  have urt: "unat (?r * t * 2) = unat ?r * unat t * 2"
  proof -
    have "unat ?r * unat t < 2 ^ LENGTH(32)" using le bb by simp
    then have s1: "unat (?r * t) = unat ?r * unat t"
      by (simp only: unat_mult_lem)
    have "unat ?r * unat t * 2 < 2 ^ 32" using le bb by linarith
    then have "unat (?r * t) * unat (2 :: u32) < 2 ^ LENGTH(32)" by (simp only: s1) simp
    then have "unat (?r * t * 2) = unat (?r * t) * unat (2 :: u32)"
      by (simp only: unat_mult_lem)
    then show ?thesis using s1 by simp
  qed
  have cmp: "(?r * t * 2 < b) = (unat ?r * unat t * 2 < unat b)"
    by (simp only: word_less_nat_alt urt)
  have inc: "unat ?r * unat t * 2 < unat b \<Longrightarrow> unat (?r + 1) = unat ?r + 1"
  proof -
    assume a: "unat ?r * unat t * 2 < unat b"
    have "unat ?r \<le> unat ?r * unat t * 2" using t0 by simp
    then have "unat ?r + 1 < 2 ^ 32" using a bb by linarith
    then show ?thesis by (simp add: unat_word_ariths)
  qed
  have nle: "\<not> b \<le> t" using lt by simp
  show ?thesis
    using nle nz cmp inc ur by (simp add: get_clock_divider_def Let_def)
qed

text \<open>
  Claim C2, as amended. For a target rate not below the base clock the divider is 0.
  For \<open>0 < target_rate < 2^31\<close> and \<open>target_rate < base_clock\<close> the function returns
  a divider \<open>d > 0\<close> that is \<open>ceil(base_clock / (2 * target_rate))\<close>, the smallest
  positive \<open>d\<close> with \<open>base_clock / (2 * d) \<le> target_rate\<close>, and
  \<open>d * target * 2 \<ge> base\<close>, \<open>(d - 1) * target * 2 < base\<close>;
  \<open>divider(50000000, 400000) = 63\<close>. (From \<open>2^31\<close> on, \<open>2 * target_rate\<close> wraps
  in \<open>uint32_t\<close>; at \<open>target_rate = 0 < base_clock\<close> the division is by zero.)
\<close>

theorem get_clock_divider_ceiling:
  fixes base_clock target_rate :: u32
  shows "(target_rate \<ge> base_clock \<longrightarrow> get_clock_divider base_clock target_rate = Some 0) \<and>
         (target_rate < base_clock \<and> 0 < unat target_rate \<and> unat target_rate < 2 ^ 31 \<longrightarrow>
            (\<exists>d. get_clock_divider base_clock target_rate = Some d \<and>
                 0 < unat d \<and>
                 int (unat d) = \<lceil>real (unat base_clock) / (2 * real (unat target_rate))\<rceil> \<and>
                 (\<forall>d'. 0 < d' \<longrightarrow>
                    (real (unat base_clock) / (2 * real d') \<le> real (unat target_rate)
                       \<longleftrightarrow> unat d \<le> d')) \<and>
                 unat base_clock \<le> unat d * unat target_rate * 2 \<and>
                 (unat d - 1) * unat target_rate * 2 < unat base_clock)) \<and>
         get_clock_divider 50000000 400000 = Some 63"
proof (intro conjI impI)
  assume "base_clock \<le> target_rate"
  then show "get_clock_divider base_clock target_rate = Some 0"
    by (simp add: get_clock_divider_def)
next
  assume h: "target_rate < base_clock \<and> 0 < unat target_rate \<and> unat target_rate < 2 ^ 31"
  then have lt: "unat target_rate < unat base_clock"
    by (simp add: word_less_nat_alt)
  from h obtain d where d: "get_clock_divider base_clock target_rate = Some d"
    and ud: "unat d = (let r = unat base_clock div (2 * unat target_rate)
                       in if r * unat target_rate * 2 < unat base_clock then r + 1 else r)"
    using get_clock_divider_unat [of target_rate base_clock] by blast
  have t0: "0 < unat target_rate" using h by simp
  have b1: "unat base_clock \<le> unat d * unat target_rate * 2"
    using divider_nat_bounds(1) [OF t0 lt] ud by (simp add: Let_def)
  have b2: "(unat d - 1) * unat target_rate * 2 < unat base_clock"
    using divider_nat_bounds(2) [OF t0 lt] ud by (simp add: Let_def)
  have b3: "0 < unat d"
    using divider_nat_bounds(3) [OF t0 lt] ud by (simp add: Let_def)
  have c: "int (unat d) = \<lceil>real (unat base_clock) / (2 * real (unat target_rate))\<rceil>"
    using divider_ceiling [OF t0 b1 b2 b3] by simp
  have l: "\<forall>d'. 0 < d' \<longrightarrow>
             (real (unat base_clock) / (2 * real d') \<le> real (unat target_rate)
                \<longleftrightarrow> unat d \<le> d')"
  proof (intro allI impI)
    fix d' :: nat
    assume "0 < d'"
    then have "real (unat base_clock) / (2 * real d') \<le> real (unat target_rate)
                 \<longleftrightarrow> unat base_clock \<le> d' * unat target_rate * 2"
      by (rule divider_real_le)
    also have "\<dots> \<longleftrightarrow> unat d \<le> d'"
      by (rule divider_least [OF b1 b2 b3])
    finally show "real (unat base_clock) / (2 * real d') \<le> real (unat target_rate)
                    \<longleftrightarrow> unat d \<le> d'" .
  qed
  show "\<exists>d. get_clock_divider base_clock target_rate = Some d \<and>
                 0 < unat d \<and>
                 int (unat d) = \<lceil>real (unat base_clock) / (2 * real (unat target_rate))\<rceil> \<and>
                 (\<forall>d'. 0 < d' \<longrightarrow>
                    (real (unat base_clock) / (2 * real d') \<le> real (unat target_rate)
                       \<longleftrightarrow> unat d \<le> d')) \<and>
                 unat base_clock \<le> unat d * unat target_rate * 2 \<and>
                 (unat d - 1) * unat target_rate * 2 < unat base_clock"
    using d b1 b2 b3 c l by blast
next
  show "get_clock_divider 50000000 400000 = Some 63"
    by (simp add: get_clock_divider_def Let_def)
qed

theorem get_clock_divider_ceiling_witness:
  "(400000 :: u32) < 50000000 \<and> 0 < unat (400000 :: u32) \<and> unat (400000 :: u32) < 2 ^ 31 \<and>
   get_clock_divider 50000000 400000 = Some 63 \<and>
   \<lceil>real (unat (50000000 :: u32)) / (2 * real (unat (400000 :: u32)))\<rceil> = 63"
  using get_clock_divider_ceiling [of 50000000 400000] by simp

text \<open>
  The claim as written, for every pair of \<open>uint32_t\<close> values, fails where
  \<open>2 * target_rate\<close> wraps: the code returns \<open>2^31\<close> where the ceiling is 1.
\<close>

theorem get_clock_divider_wraps:
  "get_clock_divider 0xFFFFFFFF 0x80000001 = Some 0x80000000 \<and>
   \<lceil>real (unat (0xFFFFFFFF :: u32)) / (2 * real (unat (0x80000001 :: u32)))\<rceil> = (1 :: int) \<and>
   \<not> (unat (0x80000000 :: u32) - 1) * unat (0x80000001 :: u32) * 2 < unat (0xFFFFFFFF :: u32)"
  by (simp add: get_clock_divider_def Let_def)

subsection \<open>Response decode\<close>

lemma ff_mask: "(0xFF :: u32) = mask 8"
  by (simp add: mask_eq_exp_minus_1)

text \<open>
  Claim C6, as amended. For a 136-bit response, the decode without the quirk is the four
  response registers in order, and the decode with the strip-response-CRC quirk is the
  128-bit value of that decode shifted left by 8 bits, with its four words stored in
  the reverse order (word 0 holds the most significant word).
\<close>

theorem strip_crc_decode_reversed_shift:
  assumes "cmd r AND hdr E SDMMC_RESP_LEN_136 \<noteq> 0"
      and "q AND ucast (hdr E SDHCI_QUIRK_STRIP_RESPONSE_CRC) \<noteq> 0"
      and "q' AND ucast (hdr E SDHCI_QUIRK_STRIP_RESPONSE_CRC) = 0"
  shows "response (read_response E q' rg r) = (resp0 rg, resp1 rg, resp2 rg, resp3 rg) \<and>
         response (read_response E q rg r) =
           (case response_words (push_bit 8 (response_value (response (read_response E q' rg r)))) of
              (v0, v1, v2, v3) \<Rightarrow> (v3, v2, v1, v0))"
  using assms
  apply (simp add: read_response_def response_words_def response_value_def ff_mask)
  apply (intro conjI; rule bit_word_eqI; auto simp: bit_simps dest: bit_imp_le_length)
  done

theorem strip_crc_decode_reversed_shift_witness:
  "cmd example_cid AND hdr example_env SDMMC_RESP_LEN_136 \<noteq> 0 \<and>
   (1 :: u64) AND ucast (hdr example_env SDHCI_QUIRK_STRIP_RESPONSE_CRC) \<noteq> 0 \<and>
   (0 :: u64) AND ucast (hdr example_env SDHCI_QUIRK_STRIP_RESPONSE_CRC) = 0 \<and>
   response (read_response example_env 1 example_regs example_cid) =
     (case response_words (push_bit 8 (response_value
             (response (read_response example_env 0 example_regs example_cid)))) of
        (v0, v1, v2, v3) \<Rightarrow> (v3, v2, v1, v0))"
proof -
  have a: "cmd example_cid AND hdr example_env SDMMC_RESP_LEN_136 \<noteq> 0"
    by (simp add: example_cid_def example_env_def)
  have b: "(1 :: u64) AND ucast (hdr example_env SDHCI_QUIRK_STRIP_RESPONSE_CRC) \<noteq> 0"
    by (simp add: example_env_def)
  have c: "(0 :: u64) AND ucast (hdr example_env SDHCI_QUIRK_STRIP_RESPONSE_CRC) = 0"
    by simp
  show ?thesis
    using a b c strip_crc_decode_reversed_shift [OF a b c, of example_regs] by simp
qed

text \<open>
  Word for word the two decodes are not a shift of one another: on registers
  \<open>0x11223344, 0x55667788, 0x99AABBCC, 0xDDEEFF00\<close> word 0 with the quirk is
  \<open>0xEEFF0099\<close>, neither shift of \<open>0x11223344\<close>, and the four words are not
  those of the shifted 128-bit value in its own order.
\<close>

theorem strip_crc_decode_not_wordwise:
  "response (read_response example_env 0 example_regs example_cid) =
     (0x11223344, 0x55667788, 0x99AABBCC, 0xDDEEFF00) \<and>
   response (read_response example_env 1 example_regs example_cid) =
     (0xEEFF0099, 0xAABBCC55, 0x66778811, 0x22334400) \<and>
   fst (response (read_response example_env 1 example_regs example_cid)) \<noteq>
     push_bit 8 (fst (response (read_response example_env 0 example_regs example_cid))) \<and>
   fst (response (read_response example_env 1 example_regs example_cid)) \<noteq>
     drop_bit 8 (fst (response (read_response example_env 0 example_regs example_cid))) \<and>
   response (read_response example_env 1 example_regs example_cid) \<noteq>
     response_words (push_bit 8 (response_value
        (response (read_response example_env 0 example_regs example_cid))))"
  by (simp add: read_response_def example_env_def example_regs_def example_cid_def
        response_words_def response_value_def)

subsection \<open>The wait for the inhibit bits\<close>

lemma wait_inhibit_clear:
  "hw_state E (now dev) AND m = 0 \<Longrightarrow> wait_inhibit E m dev = Some dev"
  by (subst wait_inhibit.simps) simp

lemma wait_inhibit_step:
  "hw_state E (now dev) AND m \<noteq> 0 \<Longrightarrow>
     wait_inhibit E m dev = wait_inhibit E m (zx_nanosleep (ZX_MSEC 1) dev)"
  by (subst wait_inhibit.simps) simp

lemma wait_inhibit_skip:
  "(\<forall>j < k. hw_state E (now dev + j * ZX_MSEC 1) AND m \<noteq> 0) \<Longrightarrow>
     wait_inhibit E m dev = wait_inhibit E m (dev\<lparr>now := now dev + k * ZX_MSEC 1\<rparr>)"
proof (induction k arbitrary: dev)
  case 0
  then show ?case by simp
next
  case (Suc k)
  have h0: "hw_state E (now dev) AND m \<noteq> 0" using Suc.prems [rule_format, of 0] by simp
  have "\<forall>j < k. hw_state E (now (zx_nanosleep (ZX_MSEC 1) dev) + j * ZX_MSEC 1) AND m \<noteq> 0"
    using Suc.prems [rule_format, of "Suc j" for j] by (simp add: zx_nanosleep_def add.assoc)
  then have "wait_inhibit E m (zx_nanosleep (ZX_MSEC 1) dev) =
             wait_inhibit E m ((zx_nanosleep (ZX_MSEC 1) dev)
                \<lparr>now := now (zx_nanosleep (ZX_MSEC 1) dev) + k * ZX_MSEC 1\<rparr>)"
    by (rule Suc.IH)
  then show ?case using wait_inhibit_step [OF h0] by (simp add: zx_nanosleep_def add.assoc)
qed

lemma wait_inhibit_Some:
  assumes "wait_inhibit E m dev = Some dev'"
  shows "\<exists>k. (\<forall>j < k. hw_state E (now dev + j * ZX_MSEC 1) AND m \<noteq> 0) \<and>
             hw_state E (now dev + k * ZX_MSEC 1) AND m = 0 \<and>
             dev' = dev\<lparr>now := now dev + k * ZX_MSEC 1\<rparr>"
proof (rule wait_inhibit.raw_induct
    [where P = "\<lambda>E m dev dev'.
       \<exists>k. (\<forall>j < k. hw_state E (now dev + j * ZX_MSEC 1) AND m \<noteq> 0) \<and>
           hw_state E (now dev + k * ZX_MSEC 1) AND m = 0 \<and>
           dev' = dev\<lparr>now := now dev + k * ZX_MSEC 1\<rparr>", OF _ assms])
  fix wait :: "env \<Rightarrow> u32 \<Rightarrow> sdhci_device \<Rightarrow> sdhci_device option"
  fix E m dev y
  assume IH: "\<And>E m dev y. wait E m dev = Some y \<Longrightarrow>
       \<exists>k. (\<forall>j < k. hw_state E (now dev + j * ZX_MSEC 1) AND m \<noteq> 0) \<and>
           hw_state E (now dev + k * ZX_MSEC 1) AND m = 0 \<and>
           y = dev\<lparr>now := now dev + k * ZX_MSEC 1\<rparr>"
  assume eq: "(if hw_state E (now dev) AND m \<noteq> 0
               then wait E m (zx_nanosleep (ZX_MSEC 1) dev) else Some dev) = Some y"
  show "\<exists>k. (\<forall>j < k. hw_state E (now dev + j * ZX_MSEC 1) AND m \<noteq> 0) \<and>
           hw_state E (now dev + k * ZX_MSEC 1) AND m = 0 \<and>
           y = dev\<lparr>now := now dev + k * ZX_MSEC 1\<rparr>"
  proof (cases "hw_state E (now dev) AND m = 0")
    case True
    then have "y = dev" using eq by simp
    then show ?thesis using True by (intro exI [of _ 0]) simp
  next
    case False
    then have "wait E m (zx_nanosleep (ZX_MSEC 1) dev) = Some y" using eq by simp
    then obtain k where k:
      "\<forall>j < k. hw_state E (now (zx_nanosleep (ZX_MSEC 1) dev) + j * ZX_MSEC 1) AND m \<noteq> 0"
      "hw_state E (now (zx_nanosleep (ZX_MSEC 1) dev) + k * ZX_MSEC 1) AND m = 0"
      "y = (zx_nanosleep (ZX_MSEC 1) dev)\<lparr>now := now (zx_nanosleep (ZX_MSEC 1) dev) + k * ZX_MSEC 1\<rparr>"
      using IH by blast
    have a: "\<forall>j < Suc k. hw_state E (now dev + j * ZX_MSEC 1) AND m \<noteq> 0"
    proof (intro allI impI)
      fix j assume "j < Suc k"
      show "hw_state E (now dev + j * ZX_MSEC 1) AND m \<noteq> 0"
      proof (cases j)
        case 0
        then show ?thesis using False by simp
      next
        case (Suc i)
        then have "i < k" using \<open>j < Suc k\<close> by simp
        then show ?thesis using k(1) Suc by (simp add: zx_nanosleep_def add.assoc)
      qed
    qed
    have b: "hw_state E (now dev + Suc k * ZX_MSEC 1) AND m = 0"
      using k(2) by (simp add: zx_nanosleep_def add.assoc)
    have c: "y = dev\<lparr>now := now dev + Suc k * ZX_MSEC 1\<rparr>"
      using k(3) by (simp add: zx_nanosleep_def add.assoc)
    show ?thesis using a b c by blast
  qed
qed

lemma wait_inhibit_None:
  assumes "\<forall>k. hw_state E (now dev + k * ZX_MSEC 1) AND m \<noteq> 0"
  shows "wait_inhibit E m dev = None"
proof (cases "wait_inhibit E m dev")
  case None
  then show ?thesis .
next
  case (Some dev')
  then show ?thesis using wait_inhibit_Some [OF Some] assms by blast
qed

lemma wait_inhibit_returns:
  assumes "\<forall>j < k. hw_state E (now dev + j * ZX_MSEC 1) AND m \<noteq> 0"
      and "hw_state E (now dev + k * ZX_MSEC 1) AND m = 0"
  shows "wait_inhibit E m dev = Some (dev\<lparr>now := now dev + k * ZX_MSEC 1\<rparr>)"
  using wait_inhibit_skip [OF assms(1)] assms(2) by (simp add: wait_inhibit_clear)

lemma wait_inhibit_only_clock:
  assumes "wait_inhibit E m dev = Some dev'"
  shows "dev' = dev\<lparr>now := now dev'\<rparr>"
  using wait_inhibit_Some [OF assms] by auto

subsection \<open>The descriptor loop\<close>

lemma adma_loop_Nil:
  "adma_loop [] count desc ds =
     (if desc \<noteq> 0 then (ZX_OK, ds[desc - 1 := (ds ! (desc - 1))\<lparr>end_bit := True\<rparr>])
      else (ZX_ERR_NOT_SUPPORTED, ds))"
  by (subst adma_loop.simps) (simp add: iotxn_phys_iter_next_def)

lemma adma_loop_Cons:
  "adma_loop ((len, paddr) # iter) count desc ds =
     (if len = 0 then
        (if desc \<noteq> 0 then (ZX_OK, ds[desc - 1 := (ds ! (desc - 1))\<lparr>end_bit := True\<rparr>])
         else (ZX_ERR_NOT_SUPPORTED, ds))
      else if len > ADMA2_DESC_MAX_LENGTH then (ZX_ERR_NOT_SUPPORTED, ds)
      else if count + 1 > DMA_DESC_COUNT then (ZX_ERR_NOT_SUPPORTED, ds)
      else adma_loop iter (count + 1) (desc + 1) (ds[desc := adma_desc (len, paddr)]))"
  by (subst adma_loop.simps, cases "ds ! desc")
     (simp add: iotxn_phys_iter_next_def adma_desc_def attr_zero_def)

lemma adma_loop_ok:
  assumes "\<forall>s \<in> set segs. fst s \<noteq> 0 \<and> fst s \<le> ADMA2_DESC_MAX_LENGTH"
      and "k + length segs \<le> DMA_DESC_COUNT"
      and "k + length segs \<le> length ds"
      and "0 < k + length segs"
  shows "adma_loop segs k k ds =
           (ZX_OK,
            (let t = take k ds @ map adma_desc segs @ drop (k + length segs) ds;
                 l = k + length segs - 1
             in t[l := (t ! l)\<lparr>end_bit := True\<rparr>]))"
  using assms
proof (induction segs arbitrary: k ds)
  case Nil
  then show ?case by (simp add: adma_loop_Nil Let_def)
next
  case (Cons s segs)
  obtain len paddr where s: "s = (len, paddr)" by (cases s)
  have k: "k < length ds" using Cons.prems(3) by simp
  have ih: "adma_loop segs (Suc k) (Suc k) (ds[k := adma_desc s]) =
           (ZX_OK,
            (let t = take (Suc k) (ds[k := adma_desc s]) @ map adma_desc segs @
                       drop (Suc k + length segs) (ds[k := adma_desc s]);
                 l = Suc k + length segs - 1
             in t[l := (t ! l)\<lparr>end_bit := True\<rparr>]))"
    using Cons.prems by (intro Cons.IH) auto
  have t: "take (Suc k) (ds[k := adma_desc s]) = take k ds @ [adma_desc s]"
    using k by (simp add: take_Suc_conv_app_nth)
  have d: "drop (Suc k + length segs) (ds[k := adma_desc s]) = drop (Suc k + length segs) ds"
    by simp
  show ?case
    using Cons.prems ih unfolding t d
    by (simp add: s adma_loop_Cons not_less Let_def)
qed

lemma adma_loop_err:
  assumes "\<forall>s \<in> set segs. fst s \<noteq> 0"
      and "k \<le> DMA_DESC_COUNT"
      and "(\<exists>s \<in> set segs. fst s > ADMA2_DESC_MAX_LENGTH) \<or>
           k + length segs > DMA_DESC_COUNT \<or> (segs = [] \<and> k = 0)"
  shows "fst (adma_loop segs k k ds) = ZX_ERR_NOT_SUPPORTED"
  using assms
proof (induction segs arbitrary: k ds)
  case Nil
  then show ?case by (simp add: adma_loop_Nil)
next
  case (Cons s segs)
  obtain len paddr where s: "s = (len, paddr)" by (cases s)
  show ?case
  proof (cases "len > ADMA2_DESC_MAX_LENGTH \<or> k + 1 > DMA_DESC_COUNT")
    case True
    then show ?thesis using Cons.prems(1) by (auto simp: s adma_loop_Cons)
  next
    case False
    have "fst (adma_loop segs (Suc k) (Suc k) (ds[k := adma_desc s])) = ZX_ERR_NOT_SUPPORTED"
      using Cons.prems False by (intro Cons.IH) (auto simp: s)
    then show ?thesis using Cons.prems(1) False by (simp add: s adma_loop_Cons)
  qed
qed

lemma ffff_mask: "(0xffff :: u64) = mask 16"
  by (simp add: mask_eq_exp_minus_1)

lemma unat_desc_length:
  fixes len :: u64
  shows "unat (ucast (len AND 0xffff) :: u16) = unat len mod 65536"
proof -
  have "(ucast (len AND mask 16) :: u16) = ucast len"
    by (rule bit_word_eqI) (auto simp: bit_simps)
  then show ?thesis
    by (simp add: ffff_mask unsigned_ucast_eq take_bit_eq_mod)
qed

lemma desc_bytes_adma_desc:
  fixes len :: u64
  assumes "len \<noteq> 0" "len \<le> ADMA2_DESC_MAX_LENGTH"
  shows "desc_bytes (adma_desc (len, paddr)) = unat len"
proof -
  have le: "unat len \<le> 65536"
    using assms(2) by (simp add: ADMA2_DESC_MAX_LENGTH_def word_le_nat_alt)
  have nz: "unat len \<noteq> 0"
    using assms(1) by (simp add: unsigned_eq_0_iff)
  have z: "(ucast (len AND 0xffff) :: u16) = 0 \<longleftrightarrow> unat len mod 65536 = 0"
    using unat_desc_length [of len] by (metis unsigned_eq_0_iff)
  show ?thesis
  proof (cases "unat len = 65536")
    case True
    then show ?thesis using z by (simp add: desc_bytes_def adma_desc_def)
  next
    case False
    then have "unat len < 65536" using le by simp
    then have "unat len mod 65536 = unat len" by simp
    then show ?thesis using z nz unat_desc_length [of len]
      by (simp add: desc_bytes_def adma_desc_def)
  qed
qed

text \<open>The chain the loop leaves for a sequence of segments within the limits.\<close>

lemma adma_loop_chain:
  assumes ok: "\<forall>s \<in> set segs. fst s \<noteq> 0 \<and> fst s \<le> ADMA2_DESC_MAX_LENGTH"
      and n: "segs \<noteq> []" "length segs \<le> DMA_DESC_COUNT"
      and tbl: "length ds = DMA_DESC_COUNT"
  shows "\<exists>ds'. adma_loop segs 0 0 ds = (ZX_OK, ds') \<and>
           length ds' = DMA_DESC_COUNT \<and>
           drop (length segs) ds' = drop (length segs) ds \<and>
           (\<forall>i < length segs.
              valid (ds' ! i) \<and> address (ds' ! i) = snd (segs ! i) \<and>
              desc_bytes (ds' ! i) = unat (fst (segs ! i)) \<and>
              (end_bit (ds' ! i) \<longleftrightarrow> i = length segs - 1)) \<and>
           (\<Sum>d \<leftarrow> take (length segs) ds'. desc_bytes d) = (\<Sum>s \<leftarrow> segs. unat (fst s))"
proof -
  let ?n = "length segs"
  let ?t = "map adma_desc segs @ drop ?n ds"
  let ?ds' = "?t[?n - 1 := (?t ! (?n - 1))\<lparr>end_bit := True\<rparr>]"
  have run: "adma_loop segs 0 0 ds = (ZX_OK, ?ds')"
    using adma_loop_ok [of segs 0 ds] ok n tbl by (simp add: Let_def)
  have len: "length ?ds' = DMA_DESC_COUNT" using n tbl by simp
  have npos: "0 < ?n" using n(1) by simp
  have nth: "?ds' ! i = (adma_desc (segs ! i))\<lparr>end_bit := (i = ?n - 1)\<rparr>" if "i < ?n" for i
  proof (cases "i = ?n - 1")
    case True
    then show ?thesis using that by (simp add: nth_append adma_desc_def)
  next
    case False
    then show ?thesis using that by (simp add: nth_append adma_desc_def)
  qed
  have bytes: "desc_bytes (?ds' ! i) = unat (fst (segs ! i))" if "i < ?n" for i
  proof -
    have "desc_bytes (?ds' ! i) = desc_bytes (adma_desc (segs ! i))"
      using nth [OF that] by (simp add: desc_bytes_def)
    also have "\<dots> = unat (fst (segs ! i))"
      using desc_bytes_adma_desc [of "fst (segs ! i)" "snd (segs ! i)"] ok that by simp
    finally show ?thesis .
  qed
  have drp: "drop ?n ?ds' = drop ?n ds"
    using npos by (simp add: drop_update_cancel)
  have flds: "\<forall>i < ?n. valid (?ds' ! i) \<and> address (?ds' ! i) = snd (segs ! i) \<and>
              desc_bytes (?ds' ! i) = unat (fst (segs ! i)) \<and>
              (end_bit (?ds' ! i) \<longleftrightarrow> i = ?n - 1)"
  proof (intro allI impI)
    fix i assume i: "i < ?n"
    show "valid (?ds' ! i) \<and> address (?ds' ! i) = snd (segs ! i) \<and>
              desc_bytes (?ds' ! i) = unat (fst (segs ! i)) \<and>
              (end_bit (?ds' ! i) \<longleftrightarrow> i = ?n - 1)"
      using bytes [OF i] by (simp only: nth [OF i]) (simp add: adma_desc_def)
  qed
  have "map desc_bytes (take ?n ?ds') = map (\<lambda>s. unat (fst s)) segs"
  proof (rule nth_equalityI)
    show "length (map desc_bytes (take ?n ?ds')) = length (map (\<lambda>s. unat (fst s)) segs)"
      using n tbl by simp
  next
    fix i assume "i < length (map desc_bytes (take ?n ?ds'))"
    then have i: "i < ?n" by simp
    then show "map desc_bytes (take ?n ?ds') ! i = map (\<lambda>s. unat (fst s)) segs ! i"
      using bytes [OF i] n tbl by simp
  qed
  then have sum: "(\<Sum>d \<leftarrow> take ?n ?ds'. desc_bytes d) = (\<Sum>s \<leftarrow> segs. unat (fst s))"
    by simp
  show ?thesis
    using run len drp flds sum by blast
qed

lemma descs_start_req_issue [simp]: "descs (start_req_issue E r c dev) = descs dev"
  by (simp add: start_req_issue_def Let_def)

lemma req_start_req_issue [simp]: "req (start_req_issue E r c dev) = req dev"
  by (simp add: start_req_issue_def Let_def)

lemma start_req_dma:
  assumes hd: "cmd r AND hdr E SDMMC_RESP_DATA_PRESENT \<noteq> 0"
      and tx: "txn r = Some t"
      and pm: "physmap t = ZX_OK"
      and dma: "sdhci_supports_adma2_64bit E dev"
      and wt: "wait_inhibit E (start_req_inhibit_mask E (cmd r)) (dev\<lparr>req := Some r\<rparr>) = Some dev1"
  shows "fst (adma_loop (phys t) 0 0 (descs dev)) \<noteq> ZX_OK \<Longrightarrow>
           sdhci_start_req_locked E dev r =
             Some (fst (adma_loop (phys t) 0 0 (descs dev)),
                   dev1\<lparr>descs := snd (adma_loop (phys t) 0 0 (descs dev))\<rparr>)"
    and "fst (adma_loop (phys t) 0 0 (descs dev)) = ZX_OK \<Longrightarrow>
           \<exists>dev'. sdhci_start_req_locked E dev r = Some (ZX_OK, dev') \<and>
                  descs dev' = snd (adma_loop (phys t) 0 0 (descs dev))"
proof -
  have d1: "dev1 = dev\<lparr>req := Some r, now := now dev1\<rparr>"
    using wait_inhibit_only_clock [OF wt] by simp
  have dma1: "sdhci_supports_adma2_64bit E dev1"
    using dma by (subst d1) (simp add: sdhci_supports_adma2_64bit_def)
  have ds1: "descs dev1 = descs dev"
    by (subst d1) simp
  show "fst (adma_loop (phys t) 0 0 (descs dev)) \<noteq> ZX_OK \<Longrightarrow>
           sdhci_start_req_locked E dev r =
             Some (fst (adma_loop (phys t) 0 0 (descs dev)),
                   dev1\<lparr>descs := snd (adma_loop (phys t) 0 0 (descs dev))\<rparr>)"
    using hd tx pm dma1 wt ds1
    by (cases "adma_loop (phys t) 0 0 (descs dev)")
       (simp add: sdhci_start_req_locked_def Let_def iotxn_phys_iter_init_def)
  show "fst (adma_loop (phys t) 0 0 (descs dev)) = ZX_OK \<Longrightarrow>
           \<exists>dev'. sdhci_start_req_locked E dev r = Some (ZX_OK, dev') \<and>
                  descs dev' = snd (adma_loop (phys t) 0 0 (descs dev))"
    using hd tx pm dma1 wt ds1
    by (cases "adma_loop (phys t) 0 0 (descs dev)")
       (simp add: sdhci_start_req_locked_def Let_def iotxn_phys_iter_init_def)
qed

text \<open>
  Claim C1. Let the segment iterator yield N segments (each of non-zero length, since
  length 0 is how it signals the end), and let submit reach the descriptor builder: the
  command has a data phase with a transaction whose mapping succeeds, DMA mode is
  active, and the wait for the inhibit bits returns. If N is at least 1 and at most
  8192 and every segment is at most 65536 bytes, submit succeeds and has written
  exactly the first N entries of the table (the rest is as before), one per segment
  with the segment's address and byte length (length 0 standing for 65536), so the
  lengths sum to the total length, and the end flag is set on the last of them only.
  If a segment exceeds 65536 bytes, or there are more than 8192 segments, or none,
  submit returns the not-supported error.
\<close>

theorem adma_descriptor_chain:
  assumes nz: "\<forall>s \<in> set (iotxn_phys_iter_init t ADMA2_DESC_MAX_LENGTH). fst s \<noteq> 0"
      and tbl: "length (descs dev) = DMA_DESC_COUNT"
      and hd: "cmd r AND hdr E SDMMC_RESP_DATA_PRESENT \<noteq> 0"
      and tx: "txn r = Some t"
      and pm: "physmap t = ZX_OK"
      and dma: "sdhci_supports_adma2_64bit E dev"
      and wt: "wait_inhibit E (start_req_inhibit_mask E (cmd r)) (dev\<lparr>req := Some r\<rparr>) = Some dev1"
  shows "(let segs = iotxn_phys_iter_init t ADMA2_DESC_MAX_LENGTH; n = length segs in
          (segs \<noteq> [] \<and> n \<le> DMA_DESC_COUNT \<and> (\<forall>s \<in> set segs. fst s \<le> ADMA2_DESC_MAX_LENGTH) \<longrightarrow>
            (\<exists>dev'. sdhci_start_req_locked E dev r = Some (ZX_OK, dev') \<and>
               length (descs dev') = DMA_DESC_COUNT \<and>
               drop n (descs dev') = drop n (descs dev) \<and>
               (\<forall>i < n.
                  valid (descs dev' ! i) \<and> address (descs dev' ! i) = snd (segs ! i) \<and>
                  desc_bytes (descs dev' ! i) = unat (fst (segs ! i)) \<and>
                  (end_bit (descs dev' ! i) \<longleftrightarrow> i = n - 1)) \<and>
               (\<Sum>d \<leftarrow> take n (descs dev'). desc_bytes d) = (\<Sum>s \<leftarrow> segs. unat (fst s)))) \<and>
          ((\<exists>s \<in> set segs. fst s > ADMA2_DESC_MAX_LENGTH) \<or> n > DMA_DESC_COUNT \<or> segs = [] \<longrightarrow>
            (\<exists>dev'. sdhci_start_req_locked E dev r = Some (ZX_ERR_NOT_SUPPORTED, dev'))))"
proof -
  let ?segs = "phys t"
  have nz': "\<forall>s \<in> set ?segs. fst s \<noteq> 0"
    using nz by (simp add: iotxn_phys_iter_init_def)
  have good: "\<exists>dev'. sdhci_start_req_locked E dev r = Some (ZX_OK, dev') \<and>
               length (descs dev') = DMA_DESC_COUNT \<and>
               drop (length ?segs) (descs dev') = drop (length ?segs) (descs dev) \<and>
               (\<forall>i < length ?segs.
                  valid (descs dev' ! i) \<and> address (descs dev' ! i) = snd (?segs ! i) \<and>
                  desc_bytes (descs dev' ! i) = unat (fst (?segs ! i)) \<and>
                  (end_bit (descs dev' ! i) \<longleftrightarrow> i = length ?segs - 1)) \<and>
               (\<Sum>d \<leftarrow> take (length ?segs) (descs dev'). desc_bytes d) =
                 (\<Sum>s \<leftarrow> ?segs. unat (fst s))"
    if g: "?segs \<noteq> []" "length ?segs \<le> DMA_DESC_COUNT"
          "\<forall>s \<in> set ?segs. fst s \<le> ADMA2_DESC_MAX_LENGTH"
  proof -
    have "\<forall>s \<in> set ?segs. fst s \<noteq> 0 \<and> fst s \<le> ADMA2_DESC_MAX_LENGTH"
      using nz' g(3) by blast
    from adma_loop_chain [OF this g(1) g(2) tbl]
    obtain ds' where ds': "adma_loop ?segs 0 0 (descs dev) = (ZX_OK, ds')"
      "length ds' = DMA_DESC_COUNT"
      "drop (length ?segs) ds' = drop (length ?segs) (descs dev)"
      "\<forall>i < length ?segs.
              valid (ds' ! i) \<and> address (ds' ! i) = snd (?segs ! i) \<and>
              desc_bytes (ds' ! i) = unat (fst (?segs ! i)) \<and>
              (end_bit (ds' ! i) \<longleftrightarrow> i = length ?segs - 1)"
      "(\<Sum>d \<leftarrow> take (length ?segs) ds'. desc_bytes d) = (\<Sum>s \<leftarrow> ?segs. unat (fst s))"
      by blast
    from start_req_dma(2) [OF hd tx pm dma wt] ds'(1)
    obtain dev' where "sdhci_start_req_locked E dev r = Some (ZX_OK, dev')" "descs dev' = ds'"
      by auto
    then show ?thesis using ds'(2-5) by blast
  qed
  have bad: "\<exists>dev'. sdhci_start_req_locked E dev r = Some (ZX_ERR_NOT_SUPPORTED, dev')"
    if b: "(\<exists>s \<in> set ?segs. fst s > ADMA2_DESC_MAX_LENGTH) \<or> length ?segs > DMA_DESC_COUNT \<or> ?segs = []"
  proof -
    have "fst (adma_loop ?segs 0 0 (descs dev)) = ZX_ERR_NOT_SUPPORTED"
      using adma_loop_err [of ?segs 0 "descs dev"] nz' b by simp
    then show ?thesis using start_req_dma(1) [OF hd tx pm dma wt] by simp
  qed
  show ?thesis
    using good bad by (simp add: Let_def iotxn_phys_iter_init_def)
qed

theorem adma_descriptor_chain_witness:
  "(\<exists>dev'. sdhci_start_req_locked example_env example_dev example_read = Some (ZX_OK, dev') \<and>
      length (descs dev') = DMA_DESC_COUNT \<and>
      valid (descs dev' ! 0) \<and> end_bit (descs dev' ! 0) \<and>
      address (descs dev' ! 0) = 0x80000000 \<and>
      desc_bytes (descs dev' ! 0) = 512 \<and>
      (\<Sum>d \<leftarrow> take 1 (descs dev'). desc_bytes d) = 512) \<and>
   (\<exists>dev'. sdhci_start_req_locked example_env example_dev
             (example_read\<lparr>txn := Some (example_txn\<lparr>phys := []\<rparr>)\<rparr>) =
           Some (ZX_ERR_NOT_SUPPORTED, dev')) \<and>
   (\<exists>dev'. sdhci_start_req_locked example_env example_dev
             (example_read\<lparr>txn := Some (example_txn\<lparr>phys := [(0x10001, 0x80000000)]\<rparr>)\<rparr>) =
           Some (ZX_ERR_NOT_SUPPORTED, dev'))"
proof -
  have tbl: "length (descs example_dev) = DMA_DESC_COUNT"
    by (simp add: example_dev_def)
  have dma: "sdhci_supports_adma2_64bit example_env example_dev"
    by (simp add: sdhci_supports_adma2_64bit_def example_env_def example_dev_def
          SDHCI_CAP_ADMA2_def SDHCI_CAP_64BIT_def)
  have run: "\<exists>dev'. sdhci_start_req_locked example_env example_dev
                      (example_read\<lparr>txn := Some (example_txn\<lparr>phys := segs\<rparr>)\<rparr>) =
                    Some (ZX_ERR_NOT_SUPPORTED, dev')"
    if nz: "\<forall>s \<in> set segs. fst s \<noteq> 0"
      and bad: "(\<exists>s \<in> set segs. fst s > ADMA2_DESC_MAX_LENGTH) \<or> segs = []" for segs
  proof -
    let ?t = "example_txn\<lparr>phys := segs\<rparr>"
    let ?r = "example_read\<lparr>txn := Some ?t\<rparr>"
    have nz': "\<forall>s \<in> set (iotxn_phys_iter_init ?t ADMA2_DESC_MAX_LENGTH). fst s \<noteq> 0"
      using nz by (simp add: iotxn_phys_iter_init_def)
    have hd: "cmd ?r AND hdr example_env SDMMC_RESP_DATA_PRESENT \<noteq> 0"
      by (simp add: example_read_def example_env_def)
    have tx: "txn ?r = Some ?t" by simp
    have pm: "physmap ?t = ZX_OK" by (simp add: example_txn_def)
    have wt: "wait_inhibit example_env (start_req_inhibit_mask example_env (cmd ?r))
                (example_dev\<lparr>req := Some ?r\<rparr>) = Some (example_dev\<lparr>req := Some ?r\<rparr>)"
      by (rule wait_inhibit_clear) (simp add: example_env_def)
    show ?thesis
      using adma_descriptor_chain [OF nz' tbl hd tx pm dma wt] bad
      by (simp add: Let_def iotxn_phys_iter_init_def) blast
  qed
  have nz: "\<forall>s \<in> set (iotxn_phys_iter_init example_txn ADMA2_DESC_MAX_LENGTH). fst s \<noteq> 0"
    by (simp add: iotxn_phys_iter_init_def example_txn_def)
  have hd: "cmd example_read AND hdr example_env SDMMC_RESP_DATA_PRESENT \<noteq> 0"
    by (simp add: example_read_def example_env_def)
  have tx: "txn example_read = Some example_txn"
    by (simp add: example_read_def)
  have pm: "physmap example_txn = ZX_OK"
    by (simp add: example_txn_def)
  have wt: "wait_inhibit example_env (start_req_inhibit_mask example_env (cmd example_read))
              (example_dev\<lparr>req := Some example_read\<rparr>) = Some (example_dev\<lparr>req := Some example_read\<rparr>)"
    by (rule wait_inhibit_clear) (simp add: example_env_def)
  have segs: "\<And>m. iotxn_phys_iter_init example_txn m = [(512, 0x80000000)]"
    by (simp add: iotxn_phys_iter_init_def example_txn_def)
  have good: "\<exists>dev'. sdhci_start_req_locked example_env example_dev example_read = Some (ZX_OK, dev') \<and>
      length (descs dev') = DMA_DESC_COUNT \<and>
      valid (descs dev' ! 0) \<and> end_bit (descs dev' ! 0) \<and>
      address (descs dev' ! 0) = 0x80000000 \<and>
      desc_bytes (descs dev' ! 0) = 512 \<and>
      (\<Sum>d \<leftarrow> take 1 (descs dev'). desc_bytes d) = 512"
    using adma_descriptor_chain [OF nz tbl hd tx pm dma wt]
    by (simp add: segs Let_def ADMA2_DESC_MAX_LENGTH_def DMA_DESC_COUNT_def) blast
  have e1: "\<exists>dev'. sdhci_start_req_locked example_env example_dev
             (example_read\<lparr>txn := Some (example_txn\<lparr>phys := []\<rparr>)\<rparr>) =
           Some (ZX_ERR_NOT_SUPPORTED, dev')"
    by (rule run) simp_all
  have e2: "\<exists>dev'. sdhci_start_req_locked example_env example_dev
             (example_read\<lparr>txn := Some (example_txn\<lparr>phys := [(0x10001, 0x80000000)]\<rparr>)\<rparr>) =
           Some (ZX_ERR_NOT_SUPPORTED, dev')"
    by (rule run) (simp_all add: ADMA2_DESC_MAX_LENGTH_def)
  show ?thesis using good e1 e2 by blast
qed

subsection \<open>Submission\<close>

lemma start_req_log_line:
  assumes "cmd r AND hdr E SDMMC_RESP_DATA_PRESENT = 0"
      and "log_flags E AND hdr E DDK_LOG_TRACE \<noteq> 0" and "txn r = None"
  shows "sdhci_start_req_locked E dev r = None"
  using assms by (simp add: sdhci_start_req_locked_def Let_def)

lemma start_req_returns_after_wait:
  assumes "\<not> (cmd r AND hdr E SDMMC_RESP_DATA_PRESENT \<noteq> 0 \<and> txn r = None)"
      and "wait_inhibit E (start_req_inhibit_mask E (cmd r)) (dev\<lparr>req := Some r\<rparr>) = Some dev1"
      and "\<not> (log_flags E AND hdr E DDK_LOG_TRACE \<noteq> 0 \<and> txn r = None)"
  shows "\<exists>st dev'. sdhci_start_req_locked E dev r = Some (st, dev') \<and>
           req dev' = Some r \<and> now dev' = now dev1"
proof -
  have d1: "dev1 = dev\<lparr>req := Some r, now := now dev1\<rparr>"
    using wait_inhibit_only_clock [OF assms(2)] by simp
  have r1: "req dev1 = Some r" by (subst d1) simp
  show ?thesis
    using assms r1
    by (auto simp: sdhci_start_req_locked_def Let_def start_req_issue_def
             split: option.splits prod.splits)
qed

lemma start_req_sets_req:
  assumes "sdhci_start_req_locked E dev r = Some (st, dev')"
  shows "req dev' = Some r"
proof (cases "cmd r AND hdr E SDMMC_RESP_DATA_PRESENT \<noteq> 0 \<and> txn r = None")
  case True
  then show ?thesis using assms by (auto simp: sdhci_start_req_locked_def Let_def)
next
  case False
  have nf: "\<not> (log_flags E AND hdr E DDK_LOG_TRACE \<noteq> 0 \<and> txn r = None)"
    using assms False
    by (auto simp: sdhci_start_req_locked_def Let_def split: if_splits)
  obtain dev1 where
    w: "wait_inhibit E (start_req_inhibit_mask E (cmd r)) (dev\<lparr>req := Some r\<rparr>) = Some dev1"
    using assms False nf
    by (auto simp: sdhci_start_req_locked_def Let_def split: option.splits)
  from start_req_returns_after_wait [OF False w nf] assms show ?thesis by auto
qed

text \<open>
  Claim C3. In every controller state with a request in flight, submit returns the
  busy status and the state it returns is the state it was given; in particular a
  second submit after one that returned finds the first request in flight and is
  turned away so.
\<close>

theorem second_submit_busy:
  "(req dev \<noteq> None \<longrightarrow> sdhci_request E dev r = Some (ZX_ERR_SHOULD_WAIT, dev)) \<and>
   (req dev0 = None \<and> sdhci_request E dev0 r1 = Some (st, dev) \<longrightarrow>
      sdhci_request E dev r = Some (ZX_ERR_SHOULD_WAIT, dev))"
proof (intro conjI impI)
  assume "req dev \<noteq> None"
  then show "sdhci_request E dev r = Some (ZX_ERR_SHOULD_WAIT, dev)"
    by (simp add: sdhci_request_def)
next
  assume "req dev0 = None \<and> sdhci_request E dev0 r1 = Some (st, dev)"
  then have "sdhci_start_req_locked E dev0 r1 = Some (st, dev)"
    by (auto simp: sdhci_request_def)
  then have "req dev = Some r1" by (rule start_req_sets_req)
  then show "sdhci_request E dev r = Some (ZX_ERR_SHOULD_WAIT, dev)"
    by (simp add: sdhci_request_def)
qed

lemma example_status_submit:
  "\<exists>dev. sdhci_request example_env example_dev example_status = Some (ZX_OK, dev)"
proof -
  have "wait_inhibit example_env (start_req_inhibit_mask example_env (cmd example_status))
              (example_dev\<lparr>req := Some example_status\<rparr>) =
        Some (example_dev\<lparr>req := Some example_status\<rparr>)"
    by (rule wait_inhibit_clear) (simp add: example_env_def)
  then show ?thesis
    by (simp add: sdhci_request_def sdhci_start_req_locked_def Let_def example_dev_def
          example_status_def example_env_def)
qed

theorem second_submit_busy_witness:
  "\<exists>dev. req example_dev = None \<and>
     sdhci_request example_env example_dev example_status = Some (ZX_OK, dev) \<and>
     req dev \<noteq> None \<and>
     sdhci_request example_env dev example_read = Some (ZX_ERR_SHOULD_WAIT, dev)"
proof -
  obtain dev where d: "sdhci_request example_env example_dev example_status = Some (ZX_OK, dev)"
    using example_status_submit by blast
  have n: "req example_dev = None" by (simp add: example_dev_def)
  have "sdhci_request example_env dev example_read = Some (ZX_ERR_SHOULD_WAIT, dev)"
    using second_submit_busy [of dev example_env example_read example_dev example_status ZX_OK] n d
    by blast
  moreover have "req dev \<noteq> None"
    using d n start_req_sets_req [of example_env example_dev example_status ZX_OK dev]
    by (simp add: sdhci_request_def)
  ultimately show ?thesis using n d by blast
qed

text \<open>
  Claim C10. Submit stores the request as the one in flight before it validates
  anything: a command with a data phase and no transaction is answered with the
  invalid-argument error in a state where the request is in flight. Whatever error
  submit returns (that one, a failed mapping, the not-supported error of the
  descriptor loop), the returned state still has the failed request in flight, and
  every submit in that state returns the busy status.
\<close>

theorem failed_submit_stays_in_flight:
  assumes "req dev = None"
  shows "(cmd r AND hdr E SDMMC_RESP_DATA_PRESENT \<noteq> 0 \<and> txn r = None \<longrightarrow>
            sdhci_request E dev r = Some (ZX_ERR_INVALID_ARGS, dev\<lparr>req := Some r\<rparr>)) \<and>
         (sdhci_request E dev r = Some (st, dev') \<and> st \<noteq> ZX_OK \<longrightarrow>
            req dev' = Some r \<and>
            (\<forall>r2. sdhci_request E dev' r2 = Some (ZX_ERR_SHOULD_WAIT, dev')))"
proof (intro conjI impI)
  assume "cmd r AND hdr E SDMMC_RESP_DATA_PRESENT \<noteq> 0 \<and> txn r = None"
  then show "sdhci_request E dev r = Some (ZX_ERR_INVALID_ARGS, dev\<lparr>req := Some r\<rparr>)"
    using assms by (simp add: sdhci_request_def sdhci_start_req_locked_def Let_def)
next
  assume a: "sdhci_request E dev r = Some (st, dev') \<and> st \<noteq> ZX_OK"
  then have "sdhci_start_req_locked E dev r = Some (st, dev')"
    using assms by (simp add: sdhci_request_def)
  then show "req dev' = Some r" by (rule start_req_sets_req)
  then show "\<forall>r2. sdhci_request E dev' r2 = Some (ZX_ERR_SHOULD_WAIT, dev')"
    by (simp add: sdhci_request_def)
qed

theorem failed_submit_stays_in_flight_witness:
  "req example_dev = None \<and>
   cmd example_read_no_txn AND hdr example_env SDMMC_RESP_DATA_PRESENT \<noteq> 0 \<and>
   txn example_read_no_txn = None \<and>
   sdhci_request example_env example_dev example_read_no_txn =
     Some (ZX_ERR_INVALID_ARGS, example_dev\<lparr>req := Some example_read_no_txn\<rparr>) \<and>
   ZX_ERR_INVALID_ARGS \<noteq> ZX_OK \<and>
   req (example_dev\<lparr>req := Some example_read_no_txn\<rparr>) = Some example_read_no_txn \<and>
   sdhci_request example_env (example_dev\<lparr>req := Some example_read_no_txn\<rparr>) example_status =
     Some (ZX_ERR_SHOULD_WAIT, example_dev\<lparr>req := Some example_read_no_txn\<rparr>)"
proof -
  have n: "req example_dev = None" by (simp add: example_dev_def)
  have h: "cmd example_read_no_txn AND hdr example_env SDMMC_RESP_DATA_PRESENT \<noteq> 0 \<and>
           txn example_read_no_txn = None"
    by (simp add: example_read_no_txn_def example_read_def example_env_def)
  note th = failed_submit_stays_in_flight [OF n, of example_read_no_txn example_env
      ZX_ERR_INVALID_ARGS "example_dev\<lparr>req := Some example_read_no_txn\<rparr>"]
  have s: "sdhci_request example_env example_dev example_read_no_txn =
     Some (ZX_ERR_INVALID_ARGS, example_dev\<lparr>req := Some example_read_no_txn\<rparr>)"
    using th h by blast
  show ?thesis using n h s th by simp
qed

subsection \<open>The bounded and the unbounded wait\<close>

lemma bus_freq_wait_ok:
  assumes "i + k \<le> 1000"
      and "\<forall>j < k. hw_state E (now dev + j * ZX_MSEC 1) AND
              (hdr E SDHCI_STATE_CMD_INHIBIT OR hdr E SDHCI_STATE_DAT_INHIBIT) \<noteq> 0"
      and "hw_state E (now dev + k * ZX_MSEC 1) AND
              (hdr E SDHCI_STATE_CMD_INHIBIT OR hdr E SDHCI_STATE_DAT_INHIBIT) = 0"
  shows "bus_freq_wait E i dev = (ZX_OK, dev\<lparr>now := now dev + k * ZX_MSEC 1\<rparr>)"
  using assms
proof (induction k arbitrary: i dev)
  case 0
  then show ?case by (subst bus_freq_wait.simps) simp
next
  case (Suc k)
  let ?dev = "zx_nanosleep (ZX_MSEC 1) dev"
  have h0: "hw_state E (now dev) AND
              (hdr E SDHCI_STATE_CMD_INHIBIT OR hdr E SDHCI_STATE_DAT_INHIBIT) \<noteq> 0"
    using Suc.prems(2) [rule_format, of 0] by simp
  have a: "\<forall>j < k. hw_state E (now ?dev + j * ZX_MSEC 1) AND
              (hdr E SDHCI_STATE_CMD_INHIBIT OR hdr E SDHCI_STATE_DAT_INHIBIT) \<noteq> 0"
    using Suc.prems(2) [rule_format, of "Suc j" for j] by (simp add: zx_nanosleep_def add.assoc)
  have b: "hw_state E (now ?dev + k * ZX_MSEC 1) AND
              (hdr E SDHCI_STATE_CMD_INHIBIT OR hdr E SDHCI_STATE_DAT_INHIBIT) = 0"
    using Suc.prems(3) by (simp add: zx_nanosleep_def add.assoc)
  have c: "Suc i + k \<le> 1000" using Suc.prems(1) by simp
  have "bus_freq_wait E (Suc i) ?dev = (ZX_OK, ?dev\<lparr>now := now ?dev + k * ZX_MSEC 1\<rparr>)"
    using Suc.IH [OF c a b] .
  moreover have "bus_freq_wait E i dev = bus_freq_wait E (Suc i) ?dev"
    using h0 c by (subst bus_freq_wait.simps) simp
  ultimately show ?case by (simp add: zx_nanosleep_def add.assoc)
qed

lemma bus_freq_wait_timeout:
  assumes "i + n = 1000"
      and "\<forall>j \<le> n. hw_state E (now dev + j * ZX_MSEC 1) AND
              (hdr E SDHCI_STATE_CMD_INHIBIT OR hdr E SDHCI_STATE_DAT_INHIBIT) \<noteq> 0"
  shows "bus_freq_wait E i dev = (ZX_ERR_TIMED_OUT, dev\<lparr>now := now dev + n * ZX_MSEC 1\<rparr>)"
  using assms
proof (induction n arbitrary: i dev)
  case 0
  then show ?case by (subst bus_freq_wait.simps) simp
next
  case (Suc n)
  let ?dev = "zx_nanosleep (ZX_MSEC 1) dev"
  have h0: "hw_state E (now dev) AND
              (hdr E SDHCI_STATE_CMD_INHIBIT OR hdr E SDHCI_STATE_DAT_INHIBIT) \<noteq> 0"
    using Suc.prems(2) [rule_format, of 0] by simp
  have a: "\<forall>j \<le> n. hw_state E (now ?dev + j * ZX_MSEC 1) AND
              (hdr E SDHCI_STATE_CMD_INHIBIT OR hdr E SDHCI_STATE_DAT_INHIBIT) \<noteq> 0"
    using Suc.prems(2) [rule_format, of "Suc j" for j] by (simp add: zx_nanosleep_def add.assoc)
  have c: "Suc i + n = 1000" using Suc.prems(1) by simp
  have "bus_freq_wait E (Suc i) ?dev =
          (ZX_ERR_TIMED_OUT, ?dev\<lparr>now := now ?dev + n * ZX_MSEC 1\<rparr>)"
    using Suc.IH [OF c a] .
  moreover have "bus_freq_wait E i dev = bus_freq_wait E (Suc i) ?dev"
    using h0 c by (subst bus_freq_wait.simps) simp
  ultimately show ?case by (simp add: zx_nanosleep_def add.assoc)
qed

text \<open>
  Claim C9. \<^verbatim>\<open>sdhci_set_bus_freq\<close> (given a divider, that is, no division by zero):
  when the command or data inhibit bit is set at each of its 1001 readings of the
  state register, 1 ms apart, it returns the timeout error after 1000 sleeps of 1 ms,
  and the device is as before but for the clock (no register is written); when the
  bits are clear at one of those readings it goes on and returns success. The wait of
  \<^verbatim>\<open>sdhci_start_req_locked\<close> (for a request that passes the check for a missing
  transaction) has no bound: however many readings find the inhibit bits set, a submit
  that reaches the wait (its trace log line, when trace logging is on, has a
  transaction to read the length of) returns only at the first reading that finds them
  clear, that many milliseconds later, and if they are never clear submit never
  returns.
\<close>

theorem inhibit_wait_bounded_and_unbounded:
  assumes "get_clock_divider (base_clock dev) bus_freq = Some divider"
      and "\<not> (cmd r AND hdr E SDMMC_RESP_DATA_PRESENT \<noteq> 0 \<and> txn r = None)"
  shows "((\<forall>j \<le> 1000. hw_state E (now dev + j * ZX_MSEC 1) AND
              (hdr E SDHCI_STATE_CMD_INHIBIT OR hdr E SDHCI_STATE_DAT_INHIBIT) \<noteq> 0) \<longrightarrow>
            sdhci_set_bus_freq E bus_freq dev =
              Some (ZX_ERR_TIMED_OUT, dev\<lparr>now := now dev + 1000 * ZX_MSEC 1\<rparr>)) \<and>
         (k \<le> 1000 \<and>
          (\<forall>j < k. hw_state E (now dev + j * ZX_MSEC 1) AND
              (hdr E SDHCI_STATE_CMD_INHIBIT OR hdr E SDHCI_STATE_DAT_INHIBIT) \<noteq> 0) \<and>
          hw_state E (now dev + k * ZX_MSEC 1) AND
              (hdr E SDHCI_STATE_CMD_INHIBIT OR hdr E SDHCI_STATE_DAT_INHIBIT) = 0 \<longrightarrow>
            (\<exists>dev'. sdhci_set_bus_freq E bus_freq dev = Some (ZX_OK, dev'))) \<and>
         (\<not> (log_flags E AND hdr E DDK_LOG_TRACE \<noteq> 0 \<and> txn r = None) \<and>
          (\<forall>j < n. hw_state E (now dev + j * ZX_MSEC 1) AND
                     start_req_inhibit_mask E (cmd r) \<noteq> 0) \<and>
          hw_state E (now dev + n * ZX_MSEC 1) AND start_req_inhibit_mask E (cmd r) = 0 \<longrightarrow>
            (\<exists>st dev'. sdhci_start_req_locked E dev r = Some (st, dev') \<and>
                       now dev' = now dev + n * ZX_MSEC 1)) \<and>
         ((\<forall>j. hw_state E (now dev + j * ZX_MSEC 1) AND
                     start_req_inhibit_mask E (cmd r) \<noteq> 0) \<longrightarrow>
            sdhci_start_req_locked E dev r = None)"
proof (intro conjI impI)
  assume "\<forall>j \<le> 1000. hw_state E (now dev + j * ZX_MSEC 1) AND
              (hdr E SDHCI_STATE_CMD_INHIBIT OR hdr E SDHCI_STATE_DAT_INHIBIT) \<noteq> 0"
  then have "bus_freq_wait E 0 dev =
               (ZX_ERR_TIMED_OUT, dev\<lparr>now := now dev + 1000 * ZX_MSEC 1\<rparr>)"
    by (intro bus_freq_wait_timeout) simp_all
  then show "sdhci_set_bus_freq E bus_freq dev =
              Some (ZX_ERR_TIMED_OUT, dev\<lparr>now := now dev + 1000 * ZX_MSEC 1\<rparr>)"
    using assms(1) by (simp add: sdhci_set_bus_freq_def)
next
  assume "k \<le> 1000 \<and>
          (\<forall>j < k. hw_state E (now dev + j * ZX_MSEC 1) AND
              (hdr E SDHCI_STATE_CMD_INHIBIT OR hdr E SDHCI_STATE_DAT_INHIBIT) \<noteq> 0) \<and>
          hw_state E (now dev + k * ZX_MSEC 1) AND
              (hdr E SDHCI_STATE_CMD_INHIBIT OR hdr E SDHCI_STATE_DAT_INHIBIT) = 0"
  then have "bus_freq_wait E 0 dev = (ZX_OK, dev\<lparr>now := now dev + k * ZX_MSEC 1\<rparr>)"
    by (intro bus_freq_wait_ok) simp_all
  then show "\<exists>dev'. sdhci_set_bus_freq E bus_freq dev = Some (ZX_OK, dev')"
    using assms(1) by (simp add: sdhci_set_bus_freq_def Let_def)
next
  assume a: "\<not> (log_flags E AND hdr E DDK_LOG_TRACE \<noteq> 0 \<and> txn r = None) \<and>
          (\<forall>j < n. hw_state E (now dev + j * ZX_MSEC 1) AND
                     start_req_inhibit_mask E (cmd r) \<noteq> 0) \<and>
          hw_state E (now dev + n * ZX_MSEC 1) AND start_req_inhibit_mask E (cmd r) = 0"
  then have nf: "\<not> (log_flags E AND hdr E DDK_LOG_TRACE \<noteq> 0 \<and> txn r = None)"
    by (rule conjunct1)
  have "wait_inhibit E (start_req_inhibit_mask E (cmd r)) (dev\<lparr>req := Some r\<rparr>) =
          Some (dev\<lparr>req := Some r\<rparr>\<lparr>now := now (dev\<lparr>req := Some r\<rparr>) + n * ZX_MSEC 1\<rparr>)"
    using a by (intro wait_inhibit_returns) simp_all
  from start_req_returns_after_wait [OF assms(2) this nf]
  show "\<exists>st dev'. sdhci_start_req_locked E dev r = Some (st, dev') \<and>
                       now dev' = now dev + n * ZX_MSEC 1"
    by auto
next
  assume "\<forall>j. hw_state E (now dev + j * ZX_MSEC 1) AND start_req_inhibit_mask E (cmd r) \<noteq> 0"
  then have "wait_inhibit E (start_req_inhibit_mask E (cmd r)) (dev\<lparr>req := Some r\<rparr>) = None"
    by (intro wait_inhibit_None) simp
  then show "sdhci_start_req_locked E dev r = None"
    using assms(2) by (auto simp: sdhci_start_req_locked_def Let_def)
qed

theorem inhibit_wait_bounded_and_unbounded_witness:
  "get_clock_divider (base_clock example_dev) 25000000 = Some 1 \<and>
   \<not> (cmd example_status AND hdr example_stuck_env SDMMC_RESP_DATA_PRESENT \<noteq> 0 \<and>
      txn example_status = None) \<and>
   \<not> (log_flags example_env AND hdr example_env DDK_LOG_TRACE \<noteq> 0 \<and>
      txn example_status = None) \<and>
   sdhci_set_bus_freq example_stuck_env 25000000 example_dev =
     Some (ZX_ERR_TIMED_OUT, example_dev\<lparr>now := now example_dev + 1000 * ZX_MSEC 1\<rparr>) \<and>
   sdhci_start_req_locked example_stuck_env example_dev example_status = None \<and>
   (\<exists>dev'. sdhci_set_bus_freq example_env 25000000 example_dev = Some (ZX_OK, dev')) \<and>
   (\<exists>st dev'. sdhci_start_req_locked example_env example_dev example_status = Some (st, dev') \<and>
       now dev' = now example_dev + 0 * ZX_MSEC 1)"
proof -
  have d: "get_clock_divider (base_clock example_dev) 25000000 = Some 1"
    by (simp add: get_clock_divider_def example_dev_def Let_def)
  have v: "\<not> (cmd example_status AND hdr example_stuck_env SDMMC_RESP_DATA_PRESENT \<noteq> 0 \<and>
      txn example_status = None)"
    by (simp add: example_status_def example_stuck_env_def example_env_def)
  have v': "\<not> (cmd example_status AND hdr example_env SDMMC_RESP_DATA_PRESENT \<noteq> 0 \<and>
      txn example_status = None)"
    by (simp add: example_status_def example_env_def)
  have nf: "\<not> (log_flags example_env AND hdr example_env DDK_LOG_TRACE \<noteq> 0 \<and>
      txn example_status = None)"
    by (simp add: example_env_def)
  have m: "start_req_inhibit_mask example_stuck_env (cmd example_status) = 1"
    by (simp add: start_req_inhibit_mask_def example_status_def example_stuck_env_def
          example_env_def)
  note stuck = inhibit_wait_bounded_and_unbounded [OF d v, of 0 0]
  note free = inhibit_wait_bounded_and_unbounded [OF d v', of 0 0]
  have a: "sdhci_set_bus_freq example_stuck_env 25000000 example_dev =
     Some (ZX_ERR_TIMED_OUT, example_dev\<lparr>now := now example_dev + 1000 * ZX_MSEC 1\<rparr>)"
    using stuck by (simp add: example_stuck_env_def example_env_def)
  have b: "sdhci_start_req_locked example_stuck_env example_dev example_status = None"
    using stuck by (simp add: m) (simp add: example_stuck_env_def example_env_def)
  have c: "\<exists>dev'. sdhci_set_bus_freq example_env 25000000 example_dev = Some (ZX_OK, dev')"
    using free by (simp add: example_env_def)
  have e: "\<exists>st dev'. sdhci_start_req_locked example_env example_dev example_status =
       Some (st, dev') \<and> now dev' = now example_dev + 0 * ZX_MSEC 1"
    using free by (simp add: example_env_def)
  show ?thesis using d v nf a b c e by blast
qed

subsection \<open>Error recovery\<close>

lemma wait_for_reset_loop_frame:
  "\<exists>c n. snd (sdhci_wait_for_reset_loop E m dl dev) =
           dev\<lparr>regs := (regs dev)\<lparr>ctrl1 := c\<rparr>, now := n\<rparr>"
proof (induction E m dl dev rule: sdhci_wait_for_reset_loop.induct)
  case (1 E m dl dev)
  let ?c = "hw_ctrl1 E (now dev) (ctrl1 (regs dev))"
  let ?dev = "dev\<lparr>regs := (regs dev)\<lparr>ctrl1 := ?c\<rparr>\<rparr>"
  show ?case
  proof (cases "?c AND m = 0 \<or> now dev > dl")
    case True
    have "snd (sdhci_wait_for_reset_loop E m dl dev) = ?dev"
      using True by (subst sdhci_wait_for_reset_loop.simps) (auto simp: Let_def)
    also have "\<dots> = dev\<lparr>regs := (regs dev)\<lparr>ctrl1 := ?c\<rparr>, now := now dev\<rparr>"
      by simp
    finally show ?thesis by blast
  next
    case False
    then have "snd (sdhci_wait_for_reset_loop E m dl dev) =
               snd (sdhci_wait_for_reset_loop E m dl (?dev\<lparr>now := Suc (now ?dev)\<rparr>))"
      by (subst sdhci_wait_for_reset_loop.simps) (simp add: Let_def)
    moreover obtain c n where
      "snd (sdhci_wait_for_reset_loop E m dl (?dev\<lparr>now := Suc (now ?dev)\<rparr>)) =
         (?dev\<lparr>now := Suc (now ?dev)\<rparr>)
           \<lparr>regs := (regs (?dev\<lparr>now := Suc (now ?dev)\<rparr>))\<lparr>ctrl1 := c\<rparr>, now := n\<rparr>"
      using 1 [OF refl refl] False by auto
    ultimately show ?thesis by (intro exI [of _ c] exI [of _ n]) simp
  qed
qed

lemma wait_for_reset_frame:
  "\<exists>c n. snd (sdhci_wait_for_reset E m t dev) = dev\<lparr>regs := (regs dev)\<lparr>ctrl1 := c\<rparr>, now := n\<rparr>"
  unfolding sdhci_wait_for_reset_def by (rule wait_for_reset_loop_frame)

lemma wait_for_reset_req [simp]:
  "req (snd (sdhci_wait_for_reset E m t dev)) = req dev"
  using wait_for_reset_frame [of E m t dev] by auto

lemma wait_for_reset_completions [simp]:
  "completions (snd (sdhci_wait_for_reset E m t dev)) = completions dev"
  using wait_for_reset_frame [of E m t dev] by auto



subsection \<open>Signal voltage\<close>

text \<open>
  Claim C8. A voltage code not below \<open>SDMMC_VOLTAGE_MAX\<close> is rejected with the
  invalid-argument error and the device is left alone. For an accepted code (and a
  non-zero 1.8V signalling enable bit) the clock enable bit is cleared, 2 ms pass,
  the 1.8V signalling enable bit is set for 1.8V and cleared otherwise, 5 ms pass, and
  the power and voltage-select bits of \<open>ctrl0\<close> are compared with the expected
  mask: when they match, the clock enable bit is set again, 2 more ms pass and the
  result is success; when they do not, the result is the internal error, returned at
  once, with the clock enable bit still clear.
\<close>

theorem set_signal_voltage_sequence:
  assumes "hdr E SDHCI_HOSTCTRL2_1P8V_SIGNALLING_ENA \<noteq> 0"
  shows "(voltage \<ge> hdr E SDMMC_VOLTAGE_MAX \<longrightarrow>
            sdhci_set_signal_voltage E voltage dev = (ZX_ERR_INVALID_ARGS, dev)) \<and>
         (voltage < hdr E SDMMC_VOLTAGE_MAX \<longrightarrow>
            (let ena = hdr E SDHCI_HOSTCTRL2_1P8V_SIGNALLING_ENA;
                 clk = hdr E SDHCI_SD_CLOCK_ENABLE;
                 c1 = ctrl1 (regs dev) AND NOT clk;
                 c2 = (if voltage = hdr E SDMMC_VOLTAGE_180
                       then ctrl2 (regs dev) OR ena else ctrl2 (regs dev) AND NOT ena);
                 expected_mask = hdr E SDHCI_PWRCTRL_SD_BUS_POWER OR
                       (if voltage = hdr E SDMMC_VOLTAGE_180
                        then hdr E SDHCI_PWRCTRL_SD_BUS_VOLTAGE_1P8V
                        else hdr E SDHCI_PWRCTRL_SD_BUS_VOLTAGE_3P3V)
             in sdhci_set_signal_voltage E voltage dev =
                  (if ctrl0 (regs dev) AND expected_mask = expected_mask
                   then (ZX_OK,
                         dev\<lparr>regs := (regs dev)\<lparr>ctrl1 := c1 OR clk, ctrl2 := c2\<rparr>,
                             now := now dev + ZX_MSEC 2 + ZX_MSEC 5 + ZX_MSEC 2\<rparr>)
                   else (ZX_ERR_INTERNAL,
                         dev\<lparr>regs := (regs dev)\<lparr>ctrl1 := c1, ctrl2 := c2\<rparr>,
                             now := now dev + ZX_MSEC 2 + ZX_MSEC 5\<rparr>))))"
proof (intro conjI impI)
  assume "hdr E SDMMC_VOLTAGE_MAX \<le> voltage"
  then show "sdhci_set_signal_voltage E voltage dev = (ZX_ERR_INVALID_ARGS, dev)"
    by (simp add: sdhci_set_signal_voltage_def)
next
  let ?ena = "hdr E SDHCI_HOSTCTRL2_1P8V_SIGNALLING_ENA"
  assume lt: "voltage < hdr E SDMMC_VOLTAGE_MAX"
  then have nle: "\<not> hdr E SDMMC_VOLTAGE_MAX \<le> voltage" by simp
  have set: "(x OR ?ena) AND ?ena \<noteq> 0" for x
    using assms by (simp add: bit.conj_disj_distrib2 or_eq_0_iff)
  have clr: "(x AND NOT ?ena) AND ?ena = 0" for x
    by (simp add: and.assoc)
  show "(let ena = hdr E SDHCI_HOSTCTRL2_1P8V_SIGNALLING_ENA;
                 clk = hdr E SDHCI_SD_CLOCK_ENABLE;
                 c1 = ctrl1 (regs dev) AND NOT clk;
                 c2 = (if voltage = hdr E SDMMC_VOLTAGE_180
                       then ctrl2 (regs dev) OR ena else ctrl2 (regs dev) AND NOT ena);
                 expected_mask = hdr E SDHCI_PWRCTRL_SD_BUS_POWER OR
                       (if voltage = hdr E SDMMC_VOLTAGE_180
                        then hdr E SDHCI_PWRCTRL_SD_BUS_VOLTAGE_1P8V
                        else hdr E SDHCI_PWRCTRL_SD_BUS_VOLTAGE_3P3V)
             in sdhci_set_signal_voltage E voltage dev =
                  (if ctrl0 (regs dev) AND expected_mask = expected_mask
                   then (ZX_OK,
                         dev\<lparr>regs := (regs dev)\<lparr>ctrl1 := c1 OR clk, ctrl2 := c2\<rparr>,
                             now := now dev + ZX_MSEC 2 + ZX_MSEC 5 + ZX_MSEC 2\<rparr>)
                   else (ZX_ERR_INTERNAL,
                         dev\<lparr>regs := (regs dev)\<lparr>ctrl1 := c1, ctrl2 := c2\<rparr>,
                             now := now dev + ZX_MSEC 2 + ZX_MSEC 5\<rparr>)))"
    using nle set clr
    by (simp add: sdhci_set_signal_voltage_def Let_def zx_nanosleep_def)
qed

theorem set_signal_voltage_sequence_witness:
  "hdr example_env SDHCI_HOSTCTRL2_1P8V_SIGNALLING_ENA \<noteq> 0 \<and>
   (2 :: u32) \<ge> hdr example_env SDMMC_VOLTAGE_MAX \<and>
   sdhci_set_signal_voltage example_env 2 example_dev = (ZX_ERR_INVALID_ARGS, example_dev) \<and>
   (0 :: u32) < hdr example_env SDMMC_VOLTAGE_MAX \<and>
   sdhci_set_signal_voltage example_env 0 example_dev =
     (ZX_OK, example_dev\<lparr>now := 9000000\<rparr>) \<and>
   ctrl1 (regs example_dev) AND hdr example_env SDHCI_SD_CLOCK_ENABLE \<noteq> 0 \<and>
   (1 :: u32) < hdr example_env SDMMC_VOLTAGE_MAX \<and>
   fst (sdhci_set_signal_voltage example_env 1
          (example_dev\<lparr>regs := example_regs\<lparr>ctrl0 := 0\<rparr>\<rparr>)) = ZX_ERR_INTERNAL \<and>
   ctrl1 (regs (snd (sdhci_set_signal_voltage example_env 1
          (example_dev\<lparr>regs := example_regs\<lparr>ctrl0 := 0\<rparr>\<rparr>)))) AND
     hdr example_env SDHCI_SD_CLOCK_ENABLE = 0 \<and>
   ctrl2 (regs (snd (sdhci_set_signal_voltage example_env 1
          (example_dev\<lparr>regs := example_regs\<lparr>ctrl0 := 0\<rparr>\<rparr>)))) = 0x80000 \<and>
   now (snd (sdhci_set_signal_voltage example_env 1
          (example_dev\<lparr>regs := example_regs\<lparr>ctrl0 := 0\<rparr>\<rparr>))) = 7000000"
proof -
  have e: "hdr example_env SDHCI_HOSTCTRL2_1P8V_SIGNALLING_ENA \<noteq> 0"
    by (simp add: example_env_def)
  show ?thesis
    using set_signal_voltage_sequence [OF e, of 2 example_dev]
          set_signal_voltage_sequence [OF e, of 0 example_dev]
          set_signal_voltage_sequence [OF e, of 1 "example_dev\<lparr>regs := example_regs\<lparr>ctrl0 := 0\<rparr>\<rparr>"]
    by (simp add: example_env_def example_dev_def example_regs_def Let_def ZX_MSEC_def)
qed

subsection \<open>Tuning\<close>

lemma tuning_loop_rounds:
  assumes "count \<le> MAX_TUNING_COUNT"
  shows "\<exists>n. 1 \<le> n \<and> count + n \<le> MAX_TUNING_COUNT + 1 \<and>
           tuning_loop E t count dev = ((iotxn_queue E t) ^^ n) dev \<and>
           (\<forall>m. 1 \<le> m \<and> m < n \<longrightarrow>
              ctrl2 (regs (((iotxn_queue E t) ^^ m) dev)) AND
                hdr E SDHCI_HOSTCTRL2_EXEC_TUNING \<noteq> 0) \<and>
           (count + n \<le> MAX_TUNING_COUNT \<longrightarrow>
              ctrl2 (regs (((iotxn_queue E t) ^^ n) dev)) AND
                hdr E SDHCI_HOSTCTRL2_EXEC_TUNING = 0)"
  using assms
proof (induction E t count dev rule: tuning_loop.induct)
  case (1 E t count dev)
  let ?q = "iotxn_queue E t"
  let ?x = "hdr E SDHCI_HOSTCTRL2_EXEC_TUNING"
  show ?case
  proof (cases "ctrl2 (regs (?q dev)) AND ?x \<noteq> 0 \<and> count < MAX_TUNING_COUNT")
    case False
    then have "tuning_loop E t count dev = (?q ^^ 1) dev"
      by (subst tuning_loop.simps) (auto simp: Let_def)
    moreover have "count + 1 \<le> MAX_TUNING_COUNT \<longrightarrow> ctrl2 (regs ((?q ^^ 1) dev)) AND ?x = 0"
      using False by auto
    ultimately show ?thesis
      using "1.prems" by (intro exI [of _ 1]) simp
  next
    case True
    then have step: "tuning_loop E t count dev = tuning_loop E t (count + 1) (?q dev)"
      by (subst tuning_loop.simps) (simp add: Let_def)
    have "count + 1 \<le> MAX_TUNING_COUNT" using True by simp
    from "1.IH" [OF refl _ this] True
    obtain n where n: "1 \<le> n" "count + 1 + n \<le> MAX_TUNING_COUNT + 1"
      "tuning_loop E t (count + 1) (?q dev) = (?q ^^ n) (?q dev)"
      "\<forall>m. 1 \<le> m \<and> m < n \<longrightarrow> ctrl2 (regs ((?q ^^ m) (?q dev))) AND ?x \<noteq> 0"
      "count + 1 + n \<le> MAX_TUNING_COUNT \<longrightarrow> ctrl2 (regs ((?q ^^ n) (?q dev))) AND ?x = 0"
      by blast
    have pow: "(?q ^^ k) (?q dev) = (?q ^^ Suc k) dev" for k
      by (simp add: funpow_swap1)
    have a: "tuning_loop E t count dev = (?q ^^ Suc n) dev"
      using step n(3) pow by simp
    have b: "\<forall>m. 1 \<le> m \<and> m < Suc n \<longrightarrow> ctrl2 (regs ((?q ^^ m) dev)) AND ?x \<noteq> 0"
    proof (intro allI impI)
      fix m assume m: "1 \<le> m \<and> m < Suc n"
      show "ctrl2 (regs ((?q ^^ m) dev)) AND ?x \<noteq> 0"
      proof (cases "m = 1")
        case True
        then show ?thesis using \<open>ctrl2 (regs (?q dev)) AND ?x \<noteq> 0 \<and> count < MAX_TUNING_COUNT\<close>
          by simp
      next
        case False
        then obtain k where k: "m = Suc k" "1 \<le> k" "k < n" using m by (cases m) auto
        then show ?thesis using n(4) pow [of k] by auto
      qed
    qed
    have c: "count + Suc n \<le> MAX_TUNING_COUNT \<longrightarrow> ctrl2 (regs ((?q ^^ Suc n) dev)) AND ?x = 0"
      using n(5) pow [of n] by auto
    show ?thesis
      using n(1,2) a b c by (intro exI [of _ "Suc n"]) simp
  qed
qed

text \<open>
  Claim C7. When the transaction can be allocated, \<^verbatim>\<open>sdhci_perform_tuning\<close> fills in
  a transaction of length 0 and offset 0 whose protocol data name the tuning-block
  command with argument 0, block count 0 and block size 128 when the 8-bit bus width
  bit of \<open>ctrl0\<close> is set and 64 otherwise; it sets the execute-tuning bit and queues
  the transaction \<open>n\<close> times, with \<open>1 \<le> n \<le> MAX_TUNING_COUNT + 1\<close>, going on only while
  the execute-tuning bit reads set after a round; and it returns success exactly when,
  after the last round, the execute-tuning bit is clear and the clock-select bit is
  set, and the I/O error otherwise.
\<close>

theorem perform_tuning_protocol:
  assumes "fst (iotxn_alloc E) = ZX_OK"
  shows "length_txn (tuning_txn E dev) = 0 \<and> offset (tuning_txn E dev) = 0 \<and>
         pd_cmd (pdata (tuning_txn E dev)) = hdr E MMC_SEND_TUNING_BLOCK \<and>
         pd_arg (pdata (tuning_txn E dev)) = 0 \<and>
         pd_blockcount (pdata (tuning_txn E dev)) = 0 \<and>
         pd_blocksize (pdata (tuning_txn E dev)) =
           (if ctrl0 (regs dev) AND hdr E SDHCI_HOSTCTRL_EXT_DATA_WIDTH \<noteq> 0 then 128 else 64) \<and>
         (\<exists>n dev'.
            1 \<le> n \<and> n \<le> MAX_TUNING_COUNT + 1 \<and>
            dev' = ((iotxn_queue E (tuning_txn E dev)) ^^ n)
                     (dev\<lparr>regs := (regs dev)
                        \<lparr>ctrl2 := ctrl2 (regs dev) OR hdr E SDHCI_HOSTCTRL2_EXEC_TUNING\<rparr>\<rparr>) \<and>
            (\<forall>m. 1 \<le> m \<and> m < n \<longrightarrow>
               ctrl2 (regs (((iotxn_queue E (tuning_txn E dev)) ^^ m)
                     (dev\<lparr>regs := (regs dev)
                        \<lparr>ctrl2 := ctrl2 (regs dev) OR hdr E SDHCI_HOSTCTRL2_EXEC_TUNING\<rparr>\<rparr>))) AND
                 hdr E SDHCI_HOSTCTRL2_EXEC_TUNING \<noteq> 0) \<and>
            (n \<le> MAX_TUNING_COUNT \<longrightarrow>
               ctrl2 (regs dev') AND hdr E SDHCI_HOSTCTRL2_EXEC_TUNING = 0) \<and>
            sdhci_perform_tuning E dev =
              (if ctrl2 (regs dev') AND hdr E SDHCI_HOSTCTRL2_EXEC_TUNING = 0 \<and>
                  ctrl2 (regs dev') AND hdr E SDHCI_HOSTCTRL2_CLOCK_SELECT \<noteq> 0
               then ZX_OK else ZX_ERR_IO, dev'))"
proof -
  let ?t = "tuning_txn E dev"
  let ?d = "dev\<lparr>regs := (regs dev)
              \<lparr>ctrl2 := ctrl2 (regs dev) OR hdr E SDHCI_HOSTCTRL2_EXEC_TUNING\<rparr>\<rparr>"
  have flds: "length_txn ?t = 0 \<and> offset ?t = 0 \<and>
         pd_cmd (pdata ?t) = hdr E MMC_SEND_TUNING_BLOCK \<and>
         pd_arg (pdata ?t) = 0 \<and> pd_blockcount (pdata ?t) = 0 \<and>
         pd_blocksize (pdata ?t) =
           (if ctrl0 (regs dev) AND hdr E SDHCI_HOSTCTRL_EXT_DATA_WIDTH \<noteq> 0 then 128 else 64)"
    by (simp add: tuning_txn_def Let_def)
  obtain n where n: "1 \<le> n" "0 + n \<le> MAX_TUNING_COUNT + 1"
      "tuning_loop E ?t 0 ?d = ((iotxn_queue E ?t) ^^ n) ?d"
      "\<forall>m. 1 \<le> m \<and> m < n \<longrightarrow>
         ctrl2 (regs (((iotxn_queue E ?t) ^^ m) ?d)) AND hdr E SDHCI_HOSTCTRL2_EXEC_TUNING \<noteq> 0"
      "0 + n \<le> MAX_TUNING_COUNT \<longrightarrow>
         ctrl2 (regs (((iotxn_queue E ?t) ^^ n) ?d)) AND hdr E SDHCI_HOSTCTRL2_EXEC_TUNING = 0"
    using tuning_loop_rounds [of 0 E ?t ?d] by blast
  let ?dev' = "((iotxn_queue E ?t) ^^ n) ?d"
  have res: "sdhci_perform_tuning E dev =
              (if ctrl2 (regs ?dev') AND hdr E SDHCI_HOSTCTRL2_EXEC_TUNING = 0 \<and>
                  ctrl2 (regs ?dev') AND hdr E SDHCI_HOSTCTRL2_CLOCK_SELECT \<noteq> 0
               then ZX_OK else ZX_ERR_IO, ?dev')"
    using assms n(3) by (simp add: sdhci_perform_tuning_def Let_def)
  show ?thesis
    using flds n(1,2,4,5) res by (intro conjI exI [of _ n] exI [of _ ?dev']) simp_all
qed

theorem perform_tuning_protocol_witness:
  "fst (iotxn_alloc example_env) = ZX_OK \<and>
   pd_blocksize (pdata (tuning_txn example_env example_dev)) = 64 \<and>
   (\<exists>dev'. sdhci_perform_tuning example_env example_dev = (ZX_OK, dev'))"
proof -
  have a: "fst (iotxn_alloc example_env) = ZX_OK" by (simp add: example_env_def)
  have b: "pd_blocksize (pdata (tuning_txn example_env example_dev)) = 64"
    using perform_tuning_protocol [OF a, of example_dev]
    by (simp add: example_env_def example_dev_def example_regs_def)
  have c: "sdhci_perform_tuning example_env example_dev =
             (ZX_OK, iotxn_queue example_env (tuning_txn example_env example_dev)
                (example_dev\<lparr>regs := (regs example_dev)
                   \<lparr>ctrl2 := ctrl2 (regs example_dev) OR
                               hdr example_env SDHCI_HOSTCTRL2_EXEC_TUNING\<rparr>\<rparr>))"
    by (subst sdhci_perform_tuning_def, subst tuning_loop.simps)
       (simp add: Let_def example_env_def example_dev_def example_regs_def MAX_TUNING_COUNT_def)
  show ?thesis using a b c by blast
qed

subsection \<open>The transfer automaton\<close>

lemma read_response_fields [simp]:
  "cmd (read_response E q rg r) = cmd r"
  "blockid (read_response E q rg r) = blockid r"
  "blockcount (read_response E q rg r) = blockcount r"
  "blocksize (read_response E q rg r) = blocksize r"
  "txn (read_response E q rg r) = txn r"
  by (simp_all add: read_response_def split: prod.splits)






lemma automaton_step_mono:
  "automaton_step E False dev dev' \<Longrightarrow> automaton_step E x dev dev'"
  by (auto simp: automaton_step_def split: option.splits)
















subsection \<open>Error interrupts with a request in flight\<close>






end
